theory Spec2Isabelle
  imports Complex_Main
begin

section \<open>The grid enumeration of \<open>MOOP.discover_pareto\<close>\<close>

text \<open>
  \<^verbatim>\<open>
  indices = [tuple([n for n in range(self.g_points)]) for o in self.objfun_iter2]
  self.cp = list(itertools.product(*indices))
  self.cp = [i[::-1] for i in self.cp]
  \<close>
  \<open>objfun_iter2 = range(1, num_objfun)\<close> has \<open>num_objfun - 1\<close> elements (none when
  \<open>num_objfun\<close> is 0 or 1, as the truncating subtraction of \<open>nat\<close> gives).
  A tuple of grid indices is a \<open>nat list\<close>.
\<close>

fun itertools_product :: "'a list list \<Rightarrow> 'a list list" where
  "itertools_product [] = [[]]"
| "itertools_product (xs # xss) =
     concat (map (\<lambda>x. map (\<lambda>t. x # t) (itertools_product xss)) xs)"

definition indices :: "nat \<Rightarrow> nat \<Rightarrow> nat list list" where
  "indices g p = replicate (p - 1) [0..<g]"

definition cp :: "nat \<Rightarrow> nat \<Rightarrow> nat list list" where
  "cp g p = map rev (itertools_product (indices g p))"

text \<open>
  The order the specification describes: the plain nested (lexicographic) order of the
  product, in which component 0 is the outermost loop.
\<close>

definition spec_order :: "nat \<Rightarrow> nat \<Rightarrow> nat list list" where
  "spec_order g p = itertools_product (indices g p)"

section \<open>Numbers, errors and the external solver\<close>

text \<open>
  Python floats and numpy \<open>float64\<close> values are modelled as exact rationals; the
  rounding error of double arithmetic is not represented. The general theorems below
  are therefore about which solves are made and what is read, stored, recorded and
  raised, and the values they mention are read back as they are or stand as the
  functions of this theory that compute them. Values are computed only at inputs where
  every intermediate result is a whole or dyadic number, or is rounded to two decimals
  far from a tie, so that doubles give the same.
  Objective counts, grid sizes and grid indices are \<open>nat\<close>; the skip counts
  (whole-valued in the source) are \<open>int\<close>.

  The exceptions the source can raise are values of \<open>error\<close>.
  \<open>TooManyOrTooFewNadirPoints\<close> is the \<open>Exception\<close> of \<open>MOOP.__init__\<close>;
  \<open>ValueError\<close> is raised by the evaluation of an expression one of whose variables has
  no value, and by \<open>int(nan)\<close>; \<open>TypeError\<close> by \<open>round(None, 10)\<close>; \<open>OverflowError\<close> by
  \<open>int(inf)\<close> and by the assignment of a float outside the 64-bit range to an element
  of an integer array. \<open>FloatDivisionByZero\<close> is not an exception of the source: it marks
  the point where the source divides by zero (by \<open>g_points - 1\<close> when \<open>g_points = 1\<close>, or
  by a zero range). numpy then yields \<open>inf\<close> or \<open>nan\<close> and goes on, and the modelling
  library decides what happens to an expression that contains the quotient; the model
  has no such numbers and ends the run there.
\<close>

datatype error =
  TooManyOrTooFewNadirPoints | IndexError | ValueError | OverflowError | TypeError
  | FloatDivisionByZero

definition tuple_get :: "'a list \<Rightarrow> nat \<Rightarrow> error + 'a" where
  "tuple_get xs i = (if i < length xs then Inr (xs ! i) else Inl IndexError)"

fun fold_err :: "('a \<Rightarrow> 's \<Rightarrow> error + 's) \<Rightarrow> 'a list \<Rightarrow> 's \<Rightarrow> error + 's" where
  "fold_err f [] s = Inr s"
| "fold_err f (x # xs) s = (case f x s of Inl er \<Rightarrow> Inl er | Inr s' \<Rightarrow> fold_err f xs s')"

fun map_err :: "('a \<Rightarrow> error + 'b) \<Rightarrow> 'a list \<Rightarrow> error + 'b list" where
  "map_err f [] = Inr []"
| "map_err f (x # xs) =
     (case f x of
        Inl er \<Rightarrow> Inl er
      | Inr y \<Rightarrow> (case map_err f xs of Inl er \<Rightarrow> Inl er | Inr ys \<Rightarrow> Inr (y # ys)))"

text \<open>\<open>int(x)\<close> truncates towards zero; \<open>round(x, n)\<close> rounds half to even.\<close>

definition int_trunc :: "rat \<Rightarrow> int" where
  "int_trunc x = (if 0 \<le> x then \<lfloor>x\<rfloor> else \<lceil>x\<rceil>)"

definition round_half_even :: "rat \<Rightarrow> int" where
  "round_half_even x =
     (let f = \<lfloor>x\<rfloor>; d = x - of_int f
      in if d < 1 / 2 then f else if 1 / 2 < d then f + 1 else if even f then f else f + 1)"

definition py_round :: "rat \<Rightarrow> nat \<Rightarrow> rat" where
  "py_round x n = of_int (round_half_even (x * 10 ^ n)) / 10 ^ n"

text \<open>
  The Pyomo model and the solver are external. What the code reads back after a solve
  is the value of each objective's original expression (\<open>obj_expr k\<close>, \<open>k = 1..p\<close>) and of
  each slack variable (\<open>Slack k\<close>, \<open>k = 2..p\<close>), and the termination condition. A value
  is \<open>None\<close> while the model holds none: the slack variables are created by
  \<open>convert_opt_prob\<close> and have no value before a solve loads one, and a solve that ends
  without a solution loads nothing. A solve is
  a call of a parameter \<open>S\<close> with the problem posed and the values the model held
  before; it returns the termination condition and the values the model holds after:
  \<^item> \<open>Single j\<close>: objective \<open>j\<close> active, no constraint added;
  \<^item> \<open>Pinned j i v\<close>: objective \<open>j\<close> active, \<open>aux_con\<close> pins objective \<open>i\<close> to \<open>v\<close>;
  \<^item> \<open>Augmented es\<close>: the augmented objective 1 active, with the epsilon parameters
    \<open>model.e[2..p]\<close> set to \<open>es\<close>.
\<close>

datatype termination_condition = optimal | infeasible | unbounded | other

record model_values =
  obj_expr :: "nat \<Rightarrow> rat option"
  Slack :: "nat \<Rightarrow> rat option"

datatype query = Single nat | Pinned nat nat rat | Augmented "rat list"

type_synonym solver = "query \<Rightarrow> model_values \<Rightarrow> termination_condition \<times> model_values"

section \<open>The class \<open>MOOP\<close>\<close>

text \<open>
  The fields of \<open>self\<close>. The numpy arrays \<open>payoff_table\<close> (\<open>p \<times> p\<close>), \<open>obj_range\<close>
  (\<open>p - 1\<close>, of integer type: it is created from a tuple of integers) and \<open>e\<close>
  (\<open>(p - 1) \<times> g\<close>) are functions of their indices; an index that could leave the shape
  is checked where it is used.
\<close>

record moop =
  num_objfun :: nat
  g_points :: nat
  nadir_points :: "rat list option"
  early_exit :: bool
  bypass_coefficient :: bool
  model :: model_values
  result :: termination_condition
  payoff_table :: "nat \<Rightarrow> nat \<Rightarrow> rat"
  ideal_point :: "nat \<Rightarrow> rat"
  obj_range :: "nat \<Rightarrow> int"
  e :: "nat \<Rightarrow> nat \<Rightarrow> rat"
  pareto_sols_temp :: "rat list list"
  bypass_jump :: int
  models_solved :: nat
  flag :: "nat list \<rightharpoonup> int"
  unique_pareto_sols :: "rat list set"

definition solve_model :: "solver \<Rightarrow> query \<Rightarrow> moop \<Rightarrow> moop" where
  "solve_model S q M = (case S q (model M) of (tc, v) \<Rightarrow> M\<lparr>model := v, result := tc\<rparr>)"

text \<open>
  \<open>model.obj_list[k]()\<close> for an objective with its original expression: the evaluation
  raises \<open>ValueError\<close> when the model holds no value for it.
\<close>

definition obj_value :: "model_values \<Rightarrow> nat \<Rightarrow> error + rat" where
  "obj_value v k = (case obj_expr v k of None \<Rightarrow> Inl ValueError | Some x \<Rightarrow> Inr x)"

subsection \<open>\<open>create_payoff_table\<close>\<close>

text \<open>
  Both double loops run over all pairs \<open>(i, j)\<close>; the first acts where \<open>i = j\<close>, the
  second where \<open>i \<noteq> j\<close>. The termination condition of a solve is stored by
  \<open>solve_model\<close> and not read here; the only way out of the loops is the \<open>ValueError\<close> of
  reading an objective that has no value. The table starts as \<open>np.inf\<close> everywhere; the
  model starts it at 0, and every entry with \<open>i, j < p\<close> is assigned before it is read.
\<close>

definition payoff_diag_body :: "solver \<Rightarrow> nat \<times> nat \<Rightarrow> moop \<Rightarrow> error + moop" where
  "payoff_diag_body S ij M =
     (case ij of (i, j) \<Rightarrow>
        if i = j then
          (let M1 = solve_model S (Single (j + 1)) M
           in case obj_value (model M1) (j + 1) of
                Inl er \<Rightarrow> Inl er
              | Inr v \<Rightarrow>
                  Inr (M1\<lparr>payoff_table := (payoff_table M1)(i := (payoff_table M1 i)(j := v)),
                          ideal_point := (ideal_point M1)(i := v)\<rparr>))
        else Inr M)"

definition payoff_offdiag_body :: "solver \<Rightarrow> nat \<times> nat \<Rightarrow> moop \<Rightarrow> error + moop" where
  "payoff_offdiag_body S ij M =
     (case ij of (i, j) \<Rightarrow>
        if i \<noteq> j then
          (let M1 = solve_model S (Pinned (j + 1) (i + 1) (payoff_table M i i)) M
           in case obj_value (model M1) (j + 1) of
                Inl er \<Rightarrow> Inl er
              | Inr temp_value \<Rightarrow>
                  Inr (M1\<lparr>payoff_table :=
                          (payoff_table M1)(i := (payoff_table M1 i)(j := py_round temp_value 10))\<rparr>))
        else Inr M)"

definition objfun_pairs :: "moop \<Rightarrow> (nat \<times> nat) list" where
  "objfun_pairs M = List.product [0..<num_objfun M] [0..<num_objfun M]"

definition create_payoff_table :: "solver \<Rightarrow> moop \<Rightarrow> error + moop" where
  "create_payoff_table S M =
     (case fold_err (payoff_diag_body S) (objfun_pairs M)
             (M\<lparr>payoff_table := (\<lambda>i j. 0), ideal_point := (\<lambda>i. 0)\<rparr>) of
        Inl er \<Rightarrow> Inl er
      | Inr M1 \<Rightarrow> fold_err (payoff_offdiag_body S) (objfun_pairs M) M1)"

subsection \<open>\<open>find_objfun_range\<close>\<close>

text \<open>
  \<open>self.min\<close> is the nadir point when \<open>nadir_points\<close> is truthy (neither \<open>None\<close> nor
  empty), else the column minimum; \<open>self.max\<close> is the column maximum. \<open>obj_range\<close> is an
  array of 64-bit integers (\<open>np.array\<close> of a tuple of Python integers): storing
  \<open>max - min\<close> into it truncates the float towards zero, and raises \<open>OverflowError\<close> when
  the whole number does not fit. For \<open>g_points = 1\<close> the quotient by \<open>g_points - 1\<close> is a
  float division by zero. The breakpoint is computed in doubles, each operation
  rounded: it can differ in the last place from the exact value computed here (for a
  range 1 and 50 grid points the last breakpoint is \<open>0.9999999999999999\<close>).
\<close>

definition column :: "moop \<Rightarrow> nat \<Rightarrow> rat list" where
  "column M i = map (\<lambda>r. payoff_table M r i) [0..<num_objfun M]"

definition chosen_min :: "moop \<Rightarrow> nat \<Rightarrow> error + rat" where
  "chosen_min M i =
     (case nadir_points M of
        Some (n # ns) \<Rightarrow> tuple_get (n # ns) (i - 1)
      | _ \<Rightarrow> Inr (Min (set (column M i))))"

definition int64 :: "int \<Rightarrow> bool" where
  "int64 r = (- (2 ^ 63) \<le> r \<and> r < 2 ^ 63)"

definition grid_row_body :: "nat \<Rightarrow> rat \<Rightarrow> nat \<Rightarrow> moop \<Rightarrow> error + moop" where
  "grid_row_body i mn j M =
     (if g_points M = 1 then Inl FloatDivisionByZero
      else Inr (M\<lparr>e := (e M)(i - 1 := (e M (i - 1))
              (j := mn + of_nat j * (of_int (obj_range M (i - 1)) / (of_nat (g_points M) - 1))))\<rparr>))"

definition objfun_range_body :: "nat \<Rightarrow> moop \<Rightarrow> error + moop" where
  "objfun_range_body i M =
     (case chosen_min M i of
        Inl er \<Rightarrow> Inl er
      | Inr mn \<Rightarrow>
          (let mx = Max (set (column M i));
               r = int_trunc (mx - mn)
           in if int64 r
              then fold_err (grid_row_body i mn) [0..<g_points M]
                     (M\<lparr>obj_range := (obj_range M)(i - 1 := r)\<rparr>)
              else Inl OverflowError))"

definition find_objfun_range :: "moop \<Rightarrow> error + moop" where
  "find_objfun_range M =
     fold_err objfun_range_body [1..<num_objfun M]
       (M\<lparr>e := (\<lambda>i j. 0), obj_range := (\<lambda>i. int i + 1)\<rparr>)"

subsection \<open>\<open>convert_opt_prob\<close>\<close>

text \<open>
  The loop rewrites the expression of objective 1, adding for every \<open>o \<noteq> 0\<close> the term
  \<open>eps * (10 ** (-(o - 1)) * Slack[o + 1] / obj_range[o - 1])\<close>: a division by the range
  of every secondary objective. The slack variables are created here, without a value.
  The parameters \<open>model.e\<close> and the constraints
  \<open>obj_list[o + 1].expr - Slack[o + 1] == e[o + 1]\<close> it adds belong to the external model:
  they are what an \<open>Augmented\<close> solve poses.
\<close>

definition eps :: rat where
  "eps = 1 / 100"

definition convert_opt_prob :: "moop \<Rightarrow> error + moop" where
  "convert_opt_prob M =
     (if list_ex (\<lambda>o1. obj_range M (o1 - 1) = 0) [1..<num_objfun M]
      then Inl FloatDivisionByZero
      else Inr (M\<lparr>model := (model M)\<lparr>Slack := (\<lambda>k. None)\<rparr>\<rparr>))"

text \<open>
  From then on \<open>model.obj_list[1]()\<close> evaluates the augmented expression; the other
  objectives still evaluate their original expressions. \<open>augmented_expr\<close> is its value
  where the model holds a value for objective 1 and for every slack and no range is
  zero; \<open>augmented_value\<close> is the evaluation, with the division by a zero range and the
  \<open>ValueError\<close> of a missing value.
\<close>

definition penalty_term :: "moop \<Rightarrow> model_values \<Rightarrow> nat \<Rightarrow> rat" where
  "penalty_term M v k =
     eps * ((1 / 10) ^ (k - 1) * the (Slack v (k + 1)) / of_int (obj_range M (k - 1)))"

definition augmented_expr :: "moop \<Rightarrow> model_values \<Rightarrow> rat" where
  "augmented_expr M v =
     fold (\<lambda>k acc. if k \<noteq> 0 then acc + penalty_term M v k else acc)
       [0..<num_objfun M] (the (obj_expr v 1))"

definition augmented_value :: "moop \<Rightarrow> model_values \<Rightarrow> error + rat" where
  "augmented_value M v =
     (if list_ex (\<lambda>o1. obj_range M (o1 - 1) = 0) [1..<num_objfun M] then Inl FloatDivisionByZero
      else if obj_expr v 1 = None \<or> list_ex (\<lambda>o1. Slack v (o1 + 1) = None) [1..<num_objfun M]
      then Inl ValueError
      else Inr (augmented_expr M v))"

subsection \<open>\<open>discover_pareto\<close>\<close>

text \<open>\<open>flag.get(c, 0)\<close>: the skip map is a dictionary keyed by tuples.\<close>

definition flag_get :: "(nat list \<rightharpoonup> int) \<Rightarrow> nat list \<Rightarrow> int" where
  "flag_get f c = (case f c of None \<Rightarrow> 0 | Some v \<Rightarrow> v)"

text \<open>
  Lines 178-181: a skip recorded for \<open>c\<close> becomes the running skip count, bounded by
  \<open>g_points - c[0]\<close>.
\<close>

definition prefix_skip :: "moop \<Rightarrow> nat list \<Rightarrow> error + moop" where
  "prefix_skip M c =
     (if flag_get (flag M) c \<noteq> 0 \<and> bypass_jump M = 0 then
        (case tuple_get c 0 of
           Inl er \<Rightarrow> Inl er
         | Inr c0 \<Rightarrow>
             (let until_end = int (g_points M) - int c0
              in Inr (M\<lparr>bypass_jump :=
                     (if flag_get (flag M) c < until_end then flag_get (flag M) c
                      else until_end)\<rparr>)))
      else Inr M)"

text \<open>
  Lines 187-188: \<open>model.e[o + 1] = e[o - 1, c[o - 1]]\<close> for \<open>o\<close> in \<open>objfun_iter2\<close>.
\<close>

definition eps_params :: "moop \<Rightarrow> nat list \<Rightarrow> error + rat list" where
  "eps_params M c =
     map_err (\<lambda>k. case tuple_get c (k - 1) of
                    Inl er \<Rightarrow> Inl er
                  | Inr j \<Rightarrow> if j < g_points M then Inr (e M (k - 1) j) else Inl IndexError)
       [1..<num_objfun M]"

text \<open>
  Lines 195-196: \<open>for i in range(c[1], g_points): flag[(c[0], i)] = g_points - c[0]\<close>.
\<close>

definition early_exit_marks :: "moop \<Rightarrow> nat list \<Rightarrow> error + moop" where
  "early_exit_marks M c =
     (case tuple_get c 1 of
        Inl er \<Rightarrow> Inl er
      | Inr c1 \<Rightarrow>
          fold_err
            (\<lambda>i M'. case tuple_get c 0 of
                       Inl er \<Rightarrow> Inl er
                     | Inr c0 \<Rightarrow>
                         Inr (M'\<lparr>flag := (flag M')([c0, i] \<mapsto> int (g_points M') - int c0)\<rparr>))
            [c1..<g_points M] M)"

text \<open>
  Lines 199-204: the array \<open>b\<close>, one entry per secondary objective:
  \<open>int(round(Slack[i + 2].value, 10) / step)\<close> with \<open>step = obj_range[i] / (g_points - 1)\<close>.
  \<open>round\<close> raises \<open>TypeError\<close> on a slack that has no value. A zero \<open>step\<close> makes the
  quotient \<open>inf\<close> or \<open>nan\<close>, on which \<open>int\<close> raises; for \<open>g_points = 1\<close> the step is itself
  \<open>inf\<close> (the quotient is then 0) or \<open>nan\<close>. The quotient of two doubles is rounded, so
  that the whole part taken by \<open>int\<close> can be one less than that of the exact quotient
  computed here (\<open>int(0.6 / 0.1)\<close> is 5).
\<close>

definition slack_steps :: "moop \<Rightarrow> error + int list" where
  "slack_steps M =
     map_err
       (\<lambda>i. case Slack (model M) (i + 2) of
               None \<Rightarrow> Inl TypeError
             | Some s \<Rightarrow>
                 (let step = of_int (obj_range M i) / (of_nat (g_points M) - 1);
                      slack = py_round s 10
                  in if g_points M = 1 then (if obj_range M i = 0 then Inl ValueError else Inr 0)
                     else if step = 0 then Inl (if slack = 0 then ValueError else OverflowError)
                     else Inr (int_trunc (slack / step))))
       [0..<num_objfun M - 1]"

text \<open>
  Lines 206-207: \<open>for i in range(c[1], int(c[1] + b[1] + 1)): flag[(c[0], i)] = b[0] + 1\<close>.
\<close>

definition bypass_marks :: "moop \<Rightarrow> nat list \<Rightarrow> error + moop" where
  "bypass_marks M c =
     (case slack_steps M of
        Inl er \<Rightarrow> Inl er
      | Inr b \<Rightarrow>
          (case tuple_get c 1 of
             Inl er \<Rightarrow> Inl er
           | Inr c1 \<Rightarrow>
               (case tuple_get b 1 of
                  Inl er \<Rightarrow> Inl er
                | Inr b1 \<Rightarrow>
                    fold_err
                      (\<lambda>i M'. case tuple_get c 0 of
                                 Inl er \<Rightarrow> Inl er
                               | Inr c0 \<Rightarrow>
                                   (case tuple_get b 0 of
                                      Inl er \<Rightarrow> Inl er
                                    | Inr b0 \<Rightarrow> Inr (M'\<lparr>flag := (flag M')([c0, i] \<mapsto> b0 + 1)\<rparr>)))
                      [c1..<nat (int c1 + b1 + 1)] M)))"

text \<open>
  Lines 211-224: the recorded candidate. \<open>Os\<close> is \<open>2..p\<close>. \<open>model.obj_list[1]()\<close> is
  evaluated first; where it succeeds every slack has a value and no range is zero.
\<close>

definition corrected_primary :: "moop \<Rightarrow> model_values \<Rightarrow> error + rat" where
  "corrected_primary M v =
     (case augmented_value M v of
        Inl er \<Rightarrow> Inl er
      | Inr a \<Rightarrow>
          Inr (py_round
                 (a - eps * sum_list (map (\<lambda>o1. the (Slack v o1) / of_int (obj_range M (o1 - 2)))
                                       [2..<num_objfun M + 1]))
                 2))"

definition temp_list :: "moop \<Rightarrow> model_values \<Rightarrow> error + rat list" where
  "temp_list M v =
     (case corrected_primary M v of
        Inl er \<Rightarrow> Inl er
      | Inr x \<Rightarrow>
          (case map_err (\<lambda>k. case obj_value v (k + 1) of
                                Inl er \<Rightarrow> Inl er
                              | Inr y \<Rightarrow> Inr (py_round y 2))
                  [1..<num_objfun M] of
             Inl er \<Rightarrow> Inl er
           | Inr ys \<Rightarrow> Inr (x # ys)))"

text \<open>Lines 226-229: the skip count for the indices after the one just solved.\<close>

definition advance_skip :: "moop \<Rightarrow> nat list \<Rightarrow> error + moop" where
  "advance_skip M c =
     (if flag_get (flag M) c \<noteq> 0 \<and> bypass_jump M = 0 then
        (case tuple_get c 0 of
           Inl er \<Rightarrow> Inl er
         | Inr c0 \<Rightarrow>
             (let until_end = int (g_points M) - int c0 - 1
              in Inr (M\<lparr>bypass_jump :=
                     (if flag_get (flag M) c - 1 < until_end then flag_get (flag M) c - 1
                      else until_end)\<rparr>)))
      else Inr M)"

text \<open>Lines 187-229: what one iteration does when the index is not skipped.\<close>

definition prune_marks :: "moop \<Rightarrow> nat list \<Rightarrow> error + moop" where
  "prune_marks M c =
     (if early_exit M \<and> result M \<noteq> optimal then early_exit_marks M c
      else if bypass_coefficient M then bypass_marks M c
      else Inr M)"

definition solve_grid_point :: "solver \<Rightarrow> moop \<Rightarrow> nat list \<Rightarrow> error + moop" where
  "solve_grid_point S M c =
     (case eps_params M c of
        Inl er \<Rightarrow> Inl er
      | Inr es \<Rightarrow>
          (let M1 = solve_model S (Augmented es) M;
               M2 = M1\<lparr>models_solved := models_solved M1 + 1\<rparr>
           in case prune_marks M2 c of
                Inl er \<Rightarrow> Inl er
              | Inr M3 \<Rightarrow>
                  (case temp_list M3 (model M3) of
                     Inl er \<Rightarrow> Inl er
                   | Inr t \<Rightarrow>
                       advance_skip (M3\<lparr>pareto_sols_temp := pareto_sols_temp M3 @ [t]\<rparr>) c)))"

text \<open>The body of \<open>for c in self.cp\<close>, and the loop.\<close>

definition grid_step :: "solver \<Rightarrow> nat list \<Rightarrow> moop \<Rightarrow> error + moop" where
  "grid_step S c M =
     (case prefix_skip M c of
        Inl er \<Rightarrow> Inl er
      | Inr M1 \<Rightarrow>
          if 0 < bypass_jump M1 then Inr (M1\<lparr>bypass_jump := bypass_jump M1 - 1\<rparr>)
          else solve_grid_point S M1 c)"

definition discover_pareto :: "solver \<Rightarrow> moop \<Rightarrow> error + moop" where
  "discover_pareto S M =
     fold_err (grid_step S) (cp (g_points M) (num_objfun M))
       (M\<lparr>pareto_sols_temp := [], bypass_jump := 0, models_solved := 0, flag := Map.empty\<rparr>)"

subsection \<open>\<open>find_unique_sols\<close> and \<open>__init__\<close>\<close>

definition find_unique_sols :: "moop \<Rightarrow> moop" where
  "find_unique_sols M = M\<lparr>unique_pareto_sols := set (pareto_sols_temp M)\<rparr>"

definition check_nadir_points :: "moop \<Rightarrow> error + unit" where
  "check_nadir_points M =
     (case nadir_points M of
        None \<Rightarrow> Inr ()
      | Some ns \<Rightarrow>
          if int (length ns) \<noteq> int (num_objfun M) - 1 then Inl TooManyOrTooFewNadirPoints
          else Inr ())"

definition MOOP_init :: "solver \<Rightarrow> moop \<Rightarrow> error + moop" where
  "MOOP_init S M =
     (case check_nadir_points M of
        Inl er \<Rightarrow> Inl er
      | Inr u \<Rightarrow>
          (case create_payoff_table S M of
             Inl er \<Rightarrow> Inl er
           | Inr M1 \<Rightarrow>
               (case find_objfun_range M1 of
                  Inl er \<Rightarrow> Inl er
                | Inr M2 \<Rightarrow>
                    (case convert_opt_prob M2 of
                       Inl er \<Rightarrow> Inl er
                     | Inr M3 \<Rightarrow>
                         (case discover_pareto S M3 of
                            Inl er \<Rightarrow> Inl er
                          | Inr M4 \<Rightarrow> Inr (find_unique_sols M4))))))"

section \<open>Auxiliary notions for the proofs\<close>

text \<open>
  A grid index of the right shape for \<open>M\<close>: \<open>p - 1\<close> components, each below \<open>g_points\<close>.
  Every element of \<open>cp\<close> is one.
\<close>

definition valid_index :: "moop \<Rightarrow> nat list \<Rightarrow> bool" where
  "valid_index M c = (length c = num_objfun M - 1 \<and> list_all (\<lambda>x. x < g_points M) c)"

text \<open>
  The model holds a value for every objective (\<open>1..p\<close>) and every slack (\<open>2..p\<close>); no
  range is zero; every epsilon parameter the grid loop sets for the index \<open>c\<close>.
\<close>

definition has_values :: "moop \<Rightarrow> model_values \<Rightarrow> bool" where
  "has_values M v =
     (list_all (\<lambda>k. obj_expr v k \<noteq> None) [1..<num_objfun M + 1] \<and>
      list_all (\<lambda>k. Slack v k \<noteq> None) [2..<num_objfun M + 1])"


definition eps_of :: "moop \<Rightarrow> nat list \<Rightarrow> rat list" where
  "eps_of M c = map (\<lambda>k. e M (k - 1) (c ! (k - 1))) [1..<num_objfun M]"

text \<open>
  The values the model holds after each solve of a run that solves the grid indices
  \<open>cs\<close> one after the other, each with its epsilon parameters, starting from the values
  \<open>v\<close>.
\<close>

fun solve_trace :: "solver \<Rightarrow> moop \<Rightarrow> nat list list \<Rightarrow> model_values \<Rightarrow> model_values list" where
  "solve_trace S M [] v = []"
| "solve_trace S M (c # cs) v =
     snd (S (Augmented (eps_of M c)) v) # solve_trace S M cs (snd (S (Augmented (eps_of M c)) v))"



text \<open>
  \<open>self.min\<close> and \<open>self.max\<close> of \<open>find_objfun_range\<close> for objective index \<open>i\<close> (with
  \<open>1 \<le> i < p\<close>, where the nadir points have passed the count check of \<open>__init__\<close>),
  and the range as the integer array stores it.
\<close>

definition objfun_min :: "moop \<Rightarrow> nat \<Rightarrow> rat" where
  "objfun_min M i =
     (case nadir_points M of
        Some (n # ns) \<Rightarrow> (n # ns) ! (i - 1)
      | _ \<Rightarrow> Min (set (column M i)))"

definition objfun_max :: "moop \<Rightarrow> nat \<Rightarrow> rat" where
  "objfun_max M i = Max (set (column M i))"

definition stored_range :: "moop \<Rightarrow> nat \<Rightarrow> int" where
  "stored_range M i = int_trunc (objfun_max M i - objfun_min M i)"

text \<open>The breakpoint that \<open>find_objfun_range\<close> computes for objective \<open>i\<close> and column \<open>j\<close>.\<close>

definition breakpoint :: "moop \<Rightarrow> nat \<Rightarrow> nat \<Rightarrow> rat" where
  "breakpoint M i j =
     objfun_min M i + of_nat j * (of_int (stored_range M i) / (of_nat (g_points M) - 1))"

text \<open>
  The solver \<open>S\<close> with every termination condition replaced by what \<open>tc\<close> says; the
  values it leaves in the model are those of \<open>S\<close>.
\<close>

definition relabel :: "(query \<Rightarrow> model_values \<Rightarrow> termination_condition) \<Rightarrow> solver \<Rightarrow> solver" where
  "relabel tc S q v = (tc q v, snd (S q v))"

text \<open>Two states that differ at most in the stored termination condition.\<close>

definition same_but_result :: "moop \<Rightarrow> moop \<Rightarrow> bool" where
  "same_but_result A B = (\<exists>r. A = B\<lparr>result := r\<rparr>)"

text \<open>
  A solver that loads, after every solve, values that depend on the problem posed only
  (\<open>val q\<close>), and reports whatever termination condition \<open>tc\<close> says. For such a solver the
  entries of the payoff table have a closed form: the diagonal entry of row \<open>i\<close> is the
  value of objective \<open>i + 1\<close> after it was optimised alone, the entry \<open>(i, j)\<close> is the
  value of objective \<open>j + 1\<close>, rounded to 10 decimals, after it was optimised with
  objective \<open>i + 1\<close> pinned to the diagonal entry.
\<close>

definition status_free ::
  "(query \<Rightarrow> model_values \<Rightarrow> termination_condition) \<Rightarrow> (query \<Rightarrow> model_values) \<Rightarrow> solver" where
  "status_free tc val q v = (tc q v, val q)"

definition diag_value :: "(query \<Rightarrow> model_values) \<Rightarrow> nat \<Rightarrow> rat" where
  "diag_value val i = the (obj_expr (val (Single (i + 1))) (i + 1))"

definition offdiag_value :: "(query \<Rightarrow> model_values) \<Rightarrow> nat \<Rightarrow> nat \<Rightarrow> rat" where
  "offdiag_value val i j =
     py_round (the (obj_expr (val (Pinned (j + 1) (i + 1) (diag_value val i))) (j + 1))) 10"

section \<open>Concrete instances\<close>

text \<open>
  \<open>moop_new\<close> is \<open>self\<close> as \<open>__init__\<close> has it before \<open>create_payoff_table\<close>: the options
  and the model are set, the fields the later stages create are placeholders.
  \<open>no_values\<close> are the values of a model that has not been solved.
\<close>

definition no_values :: model_values where
  "no_values = \<lparr>obj_expr = (\<lambda>k. None), Slack = (\<lambda>k. None)\<rparr>"

definition moop_new :: "nat \<Rightarrow> nat \<Rightarrow> rat list option \<Rightarrow> bool \<Rightarrow> bool \<Rightarrow> moop" where
  "moop_new p g nadir ee bc =
     \<lparr>num_objfun = p, g_points = g, nadir_points = nadir, early_exit = ee,
      bypass_coefficient = bc, model = no_values, result = other,
      payoff_table = (\<lambda>i j. 0), ideal_point = (\<lambda>i. 0), obj_range = (\<lambda>i. 0),
      e = (\<lambda>i j. 0), pareto_sols_temp = [], bypass_jump = 0, models_solved = 0,
      flag = Map.empty, unique_pareto_sols = {}\<rparr>"

text \<open>
  An exact solver for a model with a single feasible point, whose objectives have the
  values \<open>f 1, ..., f p\<close>. Every payoff-table solve returns the point. An augmented solve
  is feasible when every epsilon parameter is at most the objective it bounds
  (\<open>obj[k] - Slack[k] = e[k]\<close> with \<open>Slack[k] \<ge> 0\<close>), and then the slack is the difference;
  otherwise it is infeasible and the model keeps what it held (no value, where it held
  none).
\<close>

definition one_point_solver :: "(nat \<Rightarrow> rat) \<Rightarrow> solver" where
  "one_point_solver f q v =
     (case q of
        Single j \<Rightarrow> (optimal, v\<lparr>obj_expr := (\<lambda>k. Some (f k))\<rparr>)
      | Pinned j i x \<Rightarrow>
          if f i = x then (optimal, v\<lparr>obj_expr := (\<lambda>k. Some (f k))\<rparr>) else (infeasible, v)
      | Augmented es \<Rightarrow>
          if list_all (\<lambda>k. es ! k \<le> f (k + 2)) [0..<length es]
          then (optimal,
                \<lparr>obj_expr = (\<lambda>k. Some (f k)),
                 Slack = (\<lambda>k. if 2 \<le> k \<and> k < length es + 2 then Some (f k - es ! (k - 2))
                              else None)\<rparr>)
          else (infeasible, v))"


text \<open>Objective values \<open>(10, 5, 7)\<close> (\<open>(10, 5)\<close> when only two objectives are used).\<close>

definition point_10_5_7 :: "nat \<Rightarrow> rat" where
  "point_10_5_7 k = (if k = 1 then 10 else if k = 2 then 5 else if k = 3 then 7 else 0)"



text \<open>
  The one-point model with two objectives (values \<open>(10, 5)\<close>), two grid points and no
  nadir points, after \<open>create_payoff_table\<close>: every row of the table is \<open>(10, 5)\<close>.
\<close>

definition one_point_table :: moop where
  "one_point_table =
     projr (create_payoff_table (one_point_solver point_10_5_7) (moop_new 2 2 None False False))"

text \<open>
  The one-point model with two objectives, two grid points and the nadir point \<open>0.5\<close>,
  after \<open>create_payoff_table\<close>.
\<close>

definition half_nadir_table :: moop where
  "half_nadir_table =
     projr (create_payoff_table (one_point_solver point_10_5_7)
              (moop_new 2 2 (Some [1 / 2]) False False))"

text \<open>
  The one-point model with two objectives (values \<open>(10, 5)\<close>), three grid points, the
  nadir point 3 and \<open>bypass_coefficient\<close> on: the state after \<open>create_payoff_table\<close>, the
  state after \<open>find_objfun_range\<close> (range 2, grid row \<open>(3, 4, 5)\<close>, one step is 1), and the
  state after the first grid solve (epsilon 3, slack 2).
\<close>

definition nadir_3_table :: moop where
  "nadir_3_table =
     projr (create_payoff_table (one_point_solver point_10_5_7)
              (moop_new 2 3 (Some [3]) False True))"

definition nadir_3_grid :: moop where
  "nadir_3_grid = projr (find_objfun_range nadir_3_table)"

definition nadir_3_solved :: moop where
  "nadir_3_solved =
     solve_model (one_point_solver point_10_5_7) (Augmented [e nadir_3_grid 0 0]) nadir_3_grid"

text \<open>
  A solver for the one-point model \<open>(10, 5)\<close> that ends the grid solve with epsilon 5
  without an optimum (a termination condition other than \<open>optimal\<close>, as a solver stopped
  by a limit reports) and leaves the model's values as they were; every other solve is
  exact.
\<close>

definition interrupted_solver :: solver where
  "interrupted_solver q v =
     (case q of
        Augmented es \<Rightarrow> if es = [5] then (other, v) else one_point_solver point_10_5_7 q v
      | _ \<Rightarrow> one_point_solver point_10_5_7 q v)"

section \<open>Properties of the grid enumeration\<close>

lemma length_concat_map_const:
  "(\<And>x. length (F x) = n) \<Longrightarrow> length (concat (map F xs)) = length xs * n"
  by (induction xs) auto

lemma nth_concat_map_const:
  assumes "\<And>x. length (F x) = n" and "k < length xs * n"
  shows "concat (map F xs) ! k = F (xs ! (k div n)) ! (k mod n)"
  using assms(2)
proof (induction xs arbitrary: k)
  case Nil
  then show ?case by simp
next
  case (Cons x xs)
  have n: "0 < n" using Cons.prems by (cases n) auto
  show ?case
  proof (cases "k < n")
    case True
    then show ?thesis using assms(1) by (simp add: nth_append)
  next
    case False
    then have k: "k - n < length xs * n" using Cons.prems by auto
    have d: "k div n = Suc ((k - n) div n)" using False n
      by (simp add: le_div_geq)
    have m: "k mod n = (k - n) mod n" using False
      by (simp add: le_mod_geq)
    show ?thesis using False assms(1) Cons.IH[OF k]
      by (simp add: nth_append d m)
  qed
qed

lemma length_itertools_product_replicate:
  "length (itertools_product (replicate n [0..<g])) = g ^ n"
  by (induction n) (simp_all add: length_concat_map_const)

lemma length_cp: "length (cp g p) = g ^ (p - 1)"
  by (simp add: cp_def indices_def length_itertools_product_replicate)

lemma nth_itertools_product_Suc:
  assumes "k < g ^ Suc n"
  shows "itertools_product (replicate (Suc n) [0..<g]) ! k =
         (k div g ^ n) # (itertools_product (replicate n [0..<g]) ! (k mod g ^ n))"
proof -
  let ?P = "itertools_product (replicate n [0..<g])"
  let ?F = "\<lambda>x. map (\<lambda>t. x # t) ?P"
  have len: "\<And>x. length (?F x) = g ^ n"
    by (simp add: length_itertools_product_replicate)
  have k: "k < length [0..<g] * g ^ n" using assms by simp
  have gn: "0 < g ^ n" using assms by (cases "g = 0") auto
  have dv: "k div g ^ n < g" using assms gn
    by (simp add: less_mult_imp_div_less mult.commute)
  have md: "k mod g ^ n < g ^ n" using gn by simp
  have "concat (map ?F [0..<g]) ! k = ?F ([0..<g] ! (k div g ^ n)) ! (k mod g ^ n)"
    by (rule nth_concat_map_const[OF len k])
  then show ?thesis using dv md
    by (simp add: length_itertools_product_replicate)
qed

lemma digit_shift:
  fixes k g :: nat
  assumes "m < n"
  shows "(k mod g ^ n) div g ^ m mod g = k div g ^ m mod g"
proof (cases "g = 0")
  case True
  have n0: "g ^ n = 0" using True assms by simp
  show ?thesis unfolding n0 by (cases m) (simp_all add: True)
next
  case False
  from assms obtain d where "n = Suc (m + d)" by (auto dest: less_imp_Suc_add)
  then have n: "n = m + Suc d" by simp
  have gm: "0 < g ^ m" using False by simp
  have "k mod g ^ n = g ^ m * (k div g ^ m mod (g * g ^ d)) + k mod g ^ m"
    by (simp only: n power_add power_Suc mod_mult2_eq)
  then have "(k mod g ^ n) div g ^ m = k div g ^ m mod (g * g ^ d)"
    using gm by simp
  then show ?thesis by (simp add: mod_mod_cancel)
qed

lemma nth_itertools_product_replicate:
  "k < g ^ n \<Longrightarrow> j < n \<Longrightarrow>
   itertools_product (replicate n [0..<g]) ! k ! j = (k div g ^ (n - 1 - j)) mod g"
proof (induction n arbitrary: k j)
  case 0
  then show ?case by simp
next
  case (Suc n)
  have gn: "0 < g ^ n" using Suc.prems(1) by (cases "g = 0") auto
  have md: "k mod g ^ n < g ^ n" using gn by simp
  have dv: "k div g ^ n < g" using Suc.prems(1) gn
    by (simp add: less_mult_imp_div_less mult.commute)
  note e = nth_itertools_product_Suc[OF Suc.prems(1)]
  show ?case
  proof (cases j)
    case 0
    then show ?thesis unfolding e using dv by simp
  next
    case (Suc j')
    then have j': "j' < n" using Suc.prems(2) by simp
    have "n - 1 - j' < n" using j' by simp
    then have "(k mod g ^ n) div g ^ (n - 1 - j') mod g = k div g ^ (n - 1 - j') mod g"
      by (rule digit_shift)
    then show ?thesis unfolding e using Suc Suc.IH[OF md j'] by simp
  qed
qed

lemma length_nth_itertools_product_replicate:
  "k < g ^ n \<Longrightarrow> length (itertools_product (replicate n [0..<g]) ! k) = n"
proof (induction n arbitrary: k)
  case 0
  then show ?case by simp
next
  case (Suc n)
  have gn: "0 < g ^ n" using Suc.prems(1) by (cases "g = 0") auto
  then have md: "k mod g ^ n < g ^ n" by simp
  show ?case unfolding nth_itertools_product_Suc[OF Suc.prems] using Suc.IH[OF md] by simp
qed

lemma nth_cp:
  assumes "k < g ^ (p - 1)"
  shows "cp g p ! k = rev (itertools_product (replicate (p - 1) [0..<g]) ! k)"
  using assms by (simp add: cp_def indices_def length_itertools_product_replicate)



lemma map_rev_concat_Cons:
  "map rev (concat (map (\<lambda>x. map (\<lambda>t. x # t) P) xs)) =
   concat (map (\<lambda>x. map (\<lambda>t. t @ [x]) (map rev P)) xs)"
  by (induction xs) simp_all

lemma cp_three: "cp g 3 = concat (map (\<lambda>c1. map (\<lambda>c0. [c0, c1]) [0..<g]) [0..<g])"
proof -
  have "indices g 3 = [[0..<g], [0..<g]]"
    by (simp add: indices_def numeral_eq_Suc)
  then have "cp g 3 = map rev (concat (map (\<lambda>x. map (\<lambda>t. x # t) (itertools_product [[0..<g]])) [0..<g]))"
    by (simp add: cp_def)
  also have "\<dots> = concat (map (\<lambda>x. map (\<lambda>t. t @ [x]) (map rev (itertools_product [[0..<g]]))) [0..<g])"
    by (rule map_rev_concat_Cons)
  also have "map rev (itertools_product [[0..<g]]) = map (\<lambda>c0. [c0]) [0..<g]"
    by (simp add: comp_def)
  finally show ?thesis by (simp add: comp_def)
qed


text \<open>
  Claim C6, as the code has it. \<open>cp\<close> holds \<open>g ^ (p - 1)\<close> tuples of length \<open>p - 1\<close>, and
  component \<open>i\<close> of the tuple at position \<open>k\<close> is digit \<open>i\<close> of \<open>k\<close> in base \<open>g\<close>, least
  significant digit first: component 0 changes at every step (fastest) and the last
  component changes slowest, because every tuple of the product is reversed.
\<close>

theorem cp_order:
  assumes "k < g ^ (p - 1)" and "i < p - 1"
  shows "length (cp g p) = g ^ (p - 1) \<and> length (cp g p ! k) = p - 1 \<and>
         cp g p ! k ! i = (k div g ^ i) mod g"
proof -
  let ?t = "itertools_product (replicate (p - 1) [0..<g]) ! k"
  have len: "length ?t = p - 1"
    using assms(1) by (rule length_nth_itertools_product_replicate)
  have "cp g p ! k ! i = ?t ! (p - 1 - Suc i)"
    using assms(2) len by (simp add: nth_cp[OF assms(1)] rev_nth)
  also have "\<dots> = (k div g ^ (p - 1 - 1 - (p - 1 - Suc i))) mod g"
    using assms by (intro nth_itertools_product_replicate) auto
  also have "p - 1 - 1 - (p - 1 - Suc i) = i" using assms(2) by auto
  finally show ?thesis using len by (simp add: length_cp nth_cp[OF assms(1)])
qed

theorem cp_order_witness:
  "length (cp 2 3) = 4 \<and> length (cp 2 3 ! 1) = 2 \<and> cp 2 3 ! 1 ! 0 = 1"
  using cp_order [of 1 2 3 0] by simp

text \<open>
  Claim C6, as the specification words it (component 0 slowest), fails: with two grid
  points and three objectives the second tuple visited is \<open>(1, 0)\<close>, not \<open>(0, 1)\<close>.
\<close>

theorem cp_order_counterexample:
  "cp 2 3 = [[0, 0], [1, 0], [0, 1], [1, 1]] \<and>
   spec_order 2 3 = [[0, 0], [0, 1], [1, 0], [1, 1]] \<and>
   cp 2 3 \<noteq> spec_order 2 3"
  by (simp add: cp_def spec_order_def indices_def numeral_eq_Suc)

section \<open>Ranges and grid\<close>

lemma chosen_min_ok:
  assumes "check_nadir_points M = Inr ()" and "1 \<le> i" and "i < num_objfun M"
  shows "chosen_min M i = Inr (objfun_min M i)"
proof (cases "nadir_points M")
  case None
  then show ?thesis by (simp add: chosen_min_def objfun_min_def)
next
  case (Some ns)
  then have len: "int (length ns) = int (num_objfun M) - 1"
    using assms(1) by (simp add: check_nadir_points_def split: if_splits)
  show ?thesis
  proof (cases ns)
    case Nil
    then show ?thesis using Some by (simp add: chosen_min_def objfun_min_def)
  next
    case (Cons n ns')
    have "i - 1 < length ns" using len assms(2,3) by linarith
    then show ?thesis using Some Cons by (simp add: chosen_min_def objfun_min_def tuple_get_def)
  qed
qed

lemma fold_grid_row:
  assumes "g_points M \<noteq> 1"
  shows "fold_err (grid_row_body i mn) js M =
     Inr (M\<lparr>e := (\<lambda>r j. if r = i - 1 \<and> j \<in> set js
                    then mn + of_nat j * (of_int (obj_range M (i - 1)) / (of_nat (g_points M) - 1))
                    else e M r j)\<rparr>)"
  using assms
proof (induction js arbitrary: M)
  case Nil
  then show ?case by simp
next
  case (Cons j js)
  let ?M1 = "M\<lparr>e := (e M)(i - 1 := (e M (i - 1))
              (j := mn + of_nat j * (of_int (obj_range M (i - 1)) / (of_nat (g_points M) - 1))))\<rparr>"
  have b: "grid_row_body i mn j M = Inr ?M1"
    using Cons.prems by (simp add: grid_row_body_def)
  have g: "g_points ?M1 \<noteq> 1" using Cons.prems by simp
  have step1: "fold_err (grid_row_body i mn) (j # js) M = fold_err (grid_row_body i mn) js ?M1"
    by (simp only: fold_err.simps b sum.case)
  show ?case
    unfolding step1 Cons.IH[OF g]
    by (intro arg_cong[where f=Inr] moop.equality) (auto simp: fun_eq_iff)
qed

lemma column_frame [simp]:
  "column (M\<lparr>obj_range := a, e := b\<rparr>) i = column M i"
  "column (M\<lparr>e := b, obj_range := a\<rparr>) i = column M i"
  by (simp_all add: column_def)

lemma objfun_min_frame [simp]:
  "objfun_min (M\<lparr>obj_range := a, e := b\<rparr>) i = objfun_min M i"
  "objfun_min (M\<lparr>e := b, obj_range := a\<rparr>) i = objfun_min M i"
  by (simp_all add: objfun_min_def split: option.splits list.splits)

lemma objfun_max_frame [simp]:
  "objfun_max (M\<lparr>obj_range := a, e := b\<rparr>) i = objfun_max M i"
  "objfun_max (M\<lparr>e := b, obj_range := a\<rparr>) i = objfun_max M i"
  by (simp_all add: objfun_max_def)

lemma stored_range_frame [simp]:
  "stored_range (M\<lparr>obj_range := a, e := b\<rparr>) i = stored_range M i"
  "stored_range (M\<lparr>e := b, obj_range := a\<rparr>) i = stored_range M i"
  by (simp_all add: stored_range_def)

lemma breakpoint_frame [simp]:
  "breakpoint (M\<lparr>obj_range := a, e := b\<rparr>) i j = breakpoint M i j"
  "breakpoint (M\<lparr>e := b, obj_range := a\<rparr>) i j = breakpoint M i j"
  by (simp_all add: breakpoint_def)

lemma check_nadir_points_frame [simp]:
  "check_nadir_points (M\<lparr>obj_range := a, e := b\<rparr>) = check_nadir_points M"
  "check_nadir_points (M\<lparr>e := b, obj_range := a\<rparr>) = check_nadir_points M"
  by (simp_all add: check_nadir_points_def split: option.splits)

lemma objfun_range_body_eq:
  assumes "check_nadir_points M = Inr ()" and "1 \<le> i" and "i < num_objfun M"
    and "g_points M \<noteq> 1" and "int64 (stored_range M i)"
  shows "objfun_range_body i M =
     Inr (M\<lparr>e := (\<lambda>r j. if r = i - 1 \<and> j < g_points M then breakpoint M i j else e M r j),
            obj_range := (obj_range M)(i - 1 := stored_range M i)\<rparr>)"
proof -
  let ?M1 = "M\<lparr>obj_range := (obj_range M)(i - 1 := stored_range M i)\<rparr>"
  have g: "g_points ?M1 \<noteq> 1" using assms(4) by simp
  have "objfun_range_body i M = fold_err (grid_row_body i (objfun_min M i)) [0..<g_points M] ?M1"
    using assms(5)
    by (simp add: objfun_range_body_def chosen_min_ok[OF assms(1,2,3)] Let_def
        stored_range_def objfun_max_def)
  also have "\<dots> = Inr (M\<lparr>e := (\<lambda>r j. if r = i - 1 \<and> j < g_points M then breakpoint M i j
                                       else e M r j),
            obj_range := (obj_range M)(i - 1 := stored_range M i)\<rparr>)"
    unfolding fold_grid_row[OF g]
    by (intro arg_cong[where f=Inr] moop.equality)
       (auto simp: fun_eq_iff breakpoint_def cong: if_cong)
  finally show ?thesis .
qed

lemma fold_err_objfun_range:
  assumes "check_nadir_points M = Inr ()"
    and "\<forall>i\<in>set ks. 1 \<le> i \<and> i < num_objfun M \<and> int64 (stored_range M i)"
    and "g_points M \<noteq> 1"
  shows "fold_err objfun_range_body ks M =
     Inr (M\<lparr>e := (\<lambda>r j. if Suc r \<in> set ks \<and> j < g_points M then breakpoint M (Suc r) j
                          else e M r j),
            obj_range := (\<lambda>k. if Suc k \<in> set ks then stored_range M (Suc k) else obj_range M k)\<rparr>)"
  using assms
proof (induction ks arbitrary: M)
  case Nil
  then show ?case by simp
next
  case (Cons i ks)
  let ?M1 = "M\<lparr>e := (\<lambda>r j. if r = i - 1 \<and> j < g_points M then breakpoint M i j else e M r j),
            obj_range := (obj_range M)(i - 1 := stored_range M i)\<rparr>"
  have i: "1 \<le> i" "i < num_objfun M" using Cons.prems(2) by auto
  have i64: "int64 (stored_range M i)" using Cons.prems(2) by auto
  have b: "objfun_range_body i M = Inr ?M1"
    using Cons.prems(1) i Cons.prems(3) i64 by (rule objfun_range_body_eq)
  have c1: "check_nadir_points ?M1 = Inr ()" using Cons.prems(1) by simp
  have r1: "\<forall>k\<in>set ks. 1 \<le> k \<and> k < num_objfun ?M1 \<and> int64 (stored_range ?M1 k)"
    using Cons.prems(2) by simp
  have g1: "g_points ?M1 \<noteq> 1" using Cons.prems(3) by simp
  have step1: "fold_err objfun_range_body (i # ks) M = fold_err objfun_range_body ks ?M1"
    by (simp only: fold_err.simps b sum.case)
  note F = trans[OF step1 Cons.IH[OF c1 r1 g1]]
  show ?case
    unfolding F using i
    by (intro arg_cong[where f=Inr] moop.equality) (auto simp: fun_eq_iff cong: if_cong)
qed

lemma find_objfun_range_eq:
  assumes "check_nadir_points M = Inr ()" and "g_points M \<noteq> 1"
    and "list_all (\<lambda>k. int64 (stored_range M k)) [1..<num_objfun M]"
  shows "find_objfun_range M =
     Inr (M\<lparr>e := (\<lambda>r j. if Suc r < num_objfun M \<and> j < g_points M then breakpoint M (Suc r) j
                          else 0),
            obj_range := (\<lambda>k. if Suc k < num_objfun M then stored_range M (Suc k)
                               else int k + 1)\<rparr>)"
proof -
  let ?M0 = "M\<lparr>e := (\<lambda>i j. 0), obj_range := (\<lambda>i. int i + 1)\<rparr>"
  have c: "check_nadir_points ?M0 = Inr ()" using assms by simp
  have r: "\<forall>i\<in>set [1..<num_objfun M]. 1 \<le> i \<and> i < num_objfun ?M0 \<and> int64 (stored_range ?M0 i)"
    using assms(3) by (simp add: list_all_iff)
  have g: "g_points ?M0 \<noteq> 1" using assms(2) by simp
  note F = fold_err_objfun_range[OF c r g]
  show ?thesis
    unfolding find_objfun_range_def F
    by (intro arg_cong[where f=Inr] moop.equality) (auto simp: fun_eq_iff cong: if_cong)
qed

lemma int_trunc_of_int [simp]: "int_trunc (of_int r) = r"
  by (simp add: int_trunc_def)

lemma find_objfun_range_grid:
  assumes "check_nadir_points M = Inr ()" and "1 \<le> i" and "i < num_objfun M"
    and "g_points M \<noteq> 1" and "list_all (\<lambda>k. int64 (stored_range M k)) [1..<num_objfun M]"
  shows "\<exists>M'. find_objfun_range M = Inr M' \<and> obj_range M' (i - 1) = stored_range M i \<and>
           (\<forall>j<g_points M. e M' (i - 1) j = breakpoint M i j) \<and>
           num_objfun M' = num_objfun M"
proof -
  have si: "Suc (i - Suc 0) = i" using assms(2) by simp
  show ?thesis
    unfolding find_objfun_range_eq[OF assms(1,4,5)] using assms(3) by (simp add: si)
qed

lemma stored_ranges_frame [simp]:
  "list_all (\<lambda>k. int64 (stored_range (M\<lparr>obj_range := a, e := b\<rparr>) k)) ks
     = list_all (\<lambda>k. int64 (stored_range M k)) ks"
  by simp

text \<open>
  Claim C5 on the one-point model with the objective values \<open>(10, 5)\<close>, the nadir point
  \<open>0.5\<close> and two grid points. The chosen minimum of objective 2 is \<open>0.5\<close> and the
  payoff-derived maximum is 5, so the range is \<open>4.5\<close>; the integer array \<open>obj_range\<close>
  stores 4. The grid row is \<open>(0.5, 4.5)\<close>: its last column is not the maximum, and the
  breakpoint of column 1 is not \<open>min + 1 * (range / (g - 1)) = 5\<close>. Every number involved
  is a dyadic fraction, exact in double arithmetic.
\<close>

theorem range_is_truncated:
  "\<not> isl (create_payoff_table (one_point_solver point_10_5_7)
            (moop_new 2 2 (Some [1 / 2]) False False)) \<and>
   check_nadir_points half_nadir_table = Inr () \<and>
   objfun_min half_nadir_table 1 = 1 / 2 \<and>
   objfun_max half_nadir_table 1 = 5 \<and>
   \<not> isl (find_objfun_range half_nadir_table) \<and>
   obj_range (projr (find_objfun_range half_nadir_table)) 0 = 4 \<and>
   e (projr (find_objfun_range half_nadir_table)) 0 0 = 1 / 2 \<and>
   e (projr (find_objfun_range half_nadir_table)) 0 1 = 9 / 2 \<and>
   e (projr (find_objfun_range half_nadir_table)) 0 (g_points half_nadir_table - 1)
     \<noteq> objfun_max half_nadir_table 1"
  by code_simp

text \<open>
  Claim C8, as the code has it: no stage checks the range. When the nadir points have
  passed the count check, there are at least two grid points and every range fits the
  integer array, a secondary objective whose range \<open>max - min\<close> is zero does not stop
  \<open>find_objfun_range\<close>: it completes without an error, stores the range 0 and fills the
  objective's grid row with the chosen minimum. \<open>convert_opt_prob\<close> then divides by the
  zero range.
\<close>

theorem zero_range_is_not_detected:
  assumes "check_nadir_points M = Inr ()" and "2 \<le> g_points M"
    and "list_all (\<lambda>k. int64 (stored_range M k)) [1..<num_objfun M]"
    and "1 \<le> i" and "i < num_objfun M"
    and "objfun_max M i - objfun_min M i = 0"
  shows "\<exists>M'. find_objfun_range M = Inr M' \<and> obj_range M' (i - 1) = 0 \<and>
           (\<forall>k<g_points M. e M' (i - 1) k = objfun_min M i) \<and>
           convert_opt_prob M' = Inl FloatDivisionByZero"
proof -
  have g: "g_points M \<noteq> 1" using assms(2) by simp
  have z: "stored_range M i = 0" by (simp add: stored_range_def assms(6) int_trunc_def)
  from find_objfun_range_grid[OF assms(1,4,5) g assms(3)] obtain M' where
    M': "find_objfun_range M = Inr M'" and r: "obj_range M' (i - 1) = 0"
    and b: "\<forall>k<g_points M. e M' (i - 1) k = objfun_min M i"
    and p: "num_objfun M' = num_objfun M"
    by (auto simp: breakpoint_def z)
  have "i \<in> set [1..<num_objfun M']" using assms(4,5) p by simp
  then have "list_ex (\<lambda>o1. obj_range M' (o1 - 1) = 0) [1..<num_objfun M']"
    using r unfolding list_ex_iff by blast
  then have "convert_opt_prob M' = Inl FloatDivisionByZero"
    by (simp add: convert_opt_prob_def)
  then show ?thesis using M' r b by blast
qed

lemma one_point_columns:
  "check_nadir_points one_point_table = Inr () \<and> num_objfun one_point_table = 2 \<and>
   g_points one_point_table = 2 \<and> objfun_max one_point_table 1 = 5 \<and>
   objfun_min one_point_table 1 = 5 \<and> int64 (stored_range one_point_table 1)"
  by code_simp

theorem zero_range_is_not_detected_witness:
  "\<exists>M'. find_objfun_range one_point_table = Inr M' \<and> obj_range M' 0 = 0 \<and>
      e M' 0 0 = 5 \<and> e M' 0 1 = 5 \<and> convert_opt_prob M' = Inl FloatDivisionByZero"
proof -
  have "list_all (\<lambda>k. int64 (stored_range one_point_table k)) [1..<num_objfun one_point_table]"
    using one_point_columns by (simp add: numeral_2_eq_2)
  with zero_range_is_not_detected [of one_point_table 1] one_point_columns
  obtain M' where "find_objfun_range one_point_table = Inr M'" "obj_range M' 0 = 0"
    and a: "\<forall>k<2. e M' 0 k = 5" and "convert_opt_prob M' = Inl FloatDivisionByZero"
    by auto
  moreover have "e M' 0 0 = 5" "e M' 0 1 = 5" using a by simp_all
  ultimately show ?thesis by blast
qed

text \<open>
  Claim C8 as stated fails: for the one-point model without nadir points the range of
  objective 2 is zero (maximum and minimum are both 5). The check of \<open>__init__\<close> passes,
  the payoff table is built and \<open>find_objfun_range\<close> returns normally with the zero range
  stored; the constructor gets as far as the division by the zero range in
  \<open>convert_opt_prob\<close>, and no configuration error has been raised.
\<close>

theorem zero_range_counterexample:
  "objfun_max one_point_table 1 - objfun_min one_point_table 1 = 0 \<and>
   check_nadir_points (moop_new 2 2 None False False) = Inr () \<and>
   \<not> isl (create_payoff_table (one_point_solver point_10_5_7) (moop_new 2 2 None False False)) \<and>
   \<not> isl (find_objfun_range one_point_table) \<and>
   obj_range (projr (find_objfun_range one_point_table)) 0 = 0 \<and>
   isl (MOOP_init (one_point_solver point_10_5_7) (moop_new 2 2 None False False)) \<and>
   projl (MOOP_init (one_point_solver point_10_5_7) (moop_new 2 2 None False False))
     = FloatDivisionByZero"
  by code_simp
section \<open>The payoff table\<close>

lemma same_but_result_refl: "same_but_result A A"
  unfolding same_but_result_def by (rule exI[of _ "result A"]) simp

lemma payoff_diag_body_relabel_eq:
  "payoff_diag_body (relabel tc S) (i, j) (B\<lparr>result := r\<rparr>) =
   map_sum id (\<lambda>A. A\<lparr>result := (if i = j then tc (Single (j + 1)) (model B) else r)\<rparr>)
     (payoff_diag_body S (i, j) B)"
  by (simp add: payoff_diag_body_def solve_model_def relabel_def Let_def
      split: prod.splits sum.splits)

lemma payoff_offdiag_body_relabel_eq:
  "payoff_offdiag_body (relabel tc S) (i, j) (B\<lparr>result := r\<rparr>) =
   map_sum id
     (\<lambda>A. A\<lparr>result := (if i \<noteq> j then tc (Pinned (j + 1) (i + 1) (payoff_table B i i)) (model B)
                        else r)\<rparr>)
     (payoff_offdiag_body S (i, j) B)"
  by (simp add: payoff_offdiag_body_def solve_model_def relabel_def Let_def
      split: prod.splits sum.splits)

lemma rel_sum_map_sum_result:
  "rel_sum (=) same_but_result (map_sum id (\<lambda>A. A\<lparr>result := r\<rparr>) x) x"
  by (cases x) (auto simp: same_but_result_def)

lemma payoff_diag_body_relabel:
  assumes "same_but_result A B"
  shows "rel_sum (=) same_but_result
           (payoff_diag_body (relabel tc S) ij A) (payoff_diag_body S ij B)"
proof -
  obtain r where A: "A = B\<lparr>result := r\<rparr>" using assms by (auto simp: same_but_result_def)
  obtain i j where ij: "ij = (i, j)" by (cases ij)
  show ?thesis
    unfolding A ij payoff_diag_body_relabel_eq by (rule rel_sum_map_sum_result)
qed

lemma payoff_offdiag_body_relabel:
  assumes "same_but_result A B"
  shows "rel_sum (=) same_but_result
           (payoff_offdiag_body (relabel tc S) ij A) (payoff_offdiag_body S ij B)"
proof -
  obtain r where A: "A = B\<lparr>result := r\<rparr>" using assms by (auto simp: same_but_result_def)
  obtain i j where ij: "ij = (i, j)" by (cases ij)
  show ?thesis
    unfolding A ij payoff_offdiag_body_relabel_eq by (rule rel_sum_map_sum_result)
qed

lemma fold_err_same_but_result:
  assumes "\<And>x A B. same_but_result A B \<Longrightarrow> rel_sum (=) same_but_result (f x A) (h x B)"
    and "same_but_result A B"
  shows "rel_sum (=) same_but_result (fold_err f xs A) (fold_err h xs B)"
  using assms(2)
proof (induction xs arbitrary: A B)
  case Nil
  then show ?case by simp
next
  case (Cons x xs)
  from assms(1)[OF Cons.prems, of x] show ?case
    by (cases "f x A"; cases "h x B") (simp_all add: Cons.IH)
qed

text \<open>
  \<open>create_payoff_table\<close> never reads the termination condition: for every solver,
  replacing the conditions it reports by any others changes neither the error nor the
  state the construction ends in, the stored condition apart.
\<close>

lemma create_payoff_table_relabel:
  "rel_sum (=) same_but_result
     (create_payoff_table (relabel tc S) M) (create_payoff_table S M)"
proof -
  let ?M0 = "M\<lparr>payoff_table := (\<lambda>i j. 0), ideal_point := (\<lambda>i. 0)\<rparr>"
  have d: "rel_sum (=) same_but_result
             (fold_err (payoff_diag_body (relabel tc S)) (objfun_pairs M) ?M0)
             (fold_err (payoff_diag_body S) (objfun_pairs M) ?M0)"
    by (intro fold_err_same_but_result payoff_diag_body_relabel same_but_result_refl)
  show ?thesis
    unfolding create_payoff_table_def using d
    by (cases "fold_err (payoff_diag_body (relabel tc S)) (objfun_pairs M) ?M0";
        cases "fold_err (payoff_diag_body S) (objfun_pairs M) ?M0")
       (simp_all add: fold_err_same_but_result payoff_offdiag_body_relabel)
qed

lemma payoff_table_status_independent:
  assumes "create_payoff_table S M = Inr A"
  shows "\<exists>r. create_payoff_table (relabel tc S) M = Inr (A\<lparr>result := r\<rparr>)"
  using create_payoff_table_relabel[of tc S M] assms
  by (cases "create_payoff_table (relabel tc S) M") (auto simp: same_but_result_def)

subsection \<open>What is recorded\<close>

lemma payoff_diag_body_status_free:
  assumes "obj_expr (val (Single (i + 1))) (i + 1) \<noteq> None"
  shows "payoff_diag_body (status_free tc val) (i, i) M =
     Inr (M\<lparr>model := val (Single (i + 1)), result := tc (Single (i + 1)) (model M),
            payoff_table := (payoff_table M)(i := (payoff_table M i)(i := diag_value val i)),
            ideal_point := (ideal_point M)(i := diag_value val i)\<rparr>)"
  using assms
  by (auto simp: payoff_diag_body_def solve_model_def status_free_def obj_value_def
      diag_value_def Let_def)

lemma payoff_offdiag_body_status_free:
  assumes "obj_expr (val (Pinned (j + 1) (i + 1) (payoff_table M i i))) (j + 1) \<noteq> None"
    and "i \<noteq> j"
  shows "payoff_offdiag_body (status_free tc val) (i, j) M =
     Inr (M\<lparr>model := val (Pinned (j + 1) (i + 1) (payoff_table M i i)),
            result := tc (Pinned (j + 1) (i + 1) (payoff_table M i i)) (model M),
            payoff_table := (payoff_table M)(i := (payoff_table M i)
              (j := py_round
                 (the (obj_expr (val (Pinned (j + 1) (i + 1) (payoff_table M i i))) (j + 1)))
                 10))\<rparr>)"
  using assms
  by (auto simp: payoff_offdiag_body_def solve_model_def status_free_def obj_value_def Let_def)

lemma fold_err_payoff_diag:
  assumes "\<forall>q. \<forall>k<p. obj_expr (val q) (k + 1) \<noteq> None"
    and "\<forall>ij\<in>set ps. fst ij < p"
  shows "\<exists>m r. fold_err (payoff_diag_body (status_free tc val)) ps M =
     Inr (M\<lparr>model := m, result := r,
            payoff_table := (\<lambda>i j. if i = j \<and> (i, i) \<in> set ps then diag_value val i
                                    else payoff_table M i j),
            ideal_point := (\<lambda>i. if (i, i) \<in> set ps then diag_value val i
                                 else ideal_point M i)\<rparr>)"
  using assms(2)
proof (induction ps arbitrary: M)
  case Nil
  show ?case by (rule exI[of _ "model M"], rule exI[of _ "result M"]) simp
next
  case (Cons ij ps)
  obtain i j where ij: "ij = (i, j)" by (cases ij)
  have rest: "\<forall>ij\<in>set ps. fst ij < p" using Cons.prems by simp
  show ?case
  proof (cases "i = j")
    case True
    let ?M1 = "M\<lparr>model := val (Single (i + 1)), result := tc (Single (i + 1)) (model M),
            payoff_table := (payoff_table M)(i := (payoff_table M i)(i := diag_value val i)),
            ideal_point := (ideal_point M)(i := diag_value val i)\<rparr>"
    have "i < p" using Cons.prems ij by simp
    then have "obj_expr (val (Single (i + 1))) (i + 1) \<noteq> None" using assms(1) by blast
    then have b: "payoff_diag_body (status_free tc val) (i, i) M = Inr ?M1"
      by (rule payoff_diag_body_status_free)
    have step1: "fold_err (payoff_diag_body (status_free tc val)) (ij # ps) M
        = fold_err (payoff_diag_body (status_free tc val)) ps ?M1"
      unfolding ij True[symmetric] by (simp only: fold_err.simps b sum.case)
    from Cons.IH[OF rest, of ?M1] obtain m r where
      IH: "fold_err (payoff_diag_body (status_free tc val)) ps ?M1 =
         Inr (?M1\<lparr>model := m, result := r,
            payoff_table := (\<lambda>i j. if i = j \<and> (i, i) \<in> set ps then diag_value val i
                                    else payoff_table ?M1 i j),
            ideal_point := (\<lambda>i. if (i, i) \<in> set ps then diag_value val i
                                 else ideal_point ?M1 i)\<rparr>)"
      by blast
    show ?thesis
      apply (rule exI[of _ m], rule exI[of _ r])
      unfolding step1 IH using True ij
      by (intro arg_cong[where f=Inr] moop.equality) (auto simp: fun_eq_iff cong: if_cong)
  next
    case False
    have b: "payoff_diag_body (status_free tc val) ij M = Inr M"
      using False by (simp add: payoff_diag_body_def ij)
    have step1: "fold_err (payoff_diag_body (status_free tc val)) (ij # ps) M
        = fold_err (payoff_diag_body (status_free tc val)) ps M"
      by (simp only: fold_err.simps b sum.case)
    from Cons.IH[OF rest, of M] obtain m r where
      IH: "fold_err (payoff_diag_body (status_free tc val)) ps M =
         Inr (M\<lparr>model := m, result := r,
            payoff_table := (\<lambda>i j. if i = j \<and> (i, i) \<in> set ps then diag_value val i
                                    else payoff_table M i j),
            ideal_point := (\<lambda>i. if (i, i) \<in> set ps then diag_value val i
                                 else ideal_point M i)\<rparr>)"
      by blast
    show ?thesis
      apply (rule exI[of _ m], rule exI[of _ r])
      unfolding step1 IH using False ij
      by (intro arg_cong[where f=Inr] moop.equality) (auto simp: fun_eq_iff cong: if_cong)
  qed
qed

lemma fold_err_payoff_offdiag:
  assumes "\<forall>q. \<forall>k<p. obj_expr (val q) (k + 1) \<noteq> None"
    and "\<forall>ij\<in>set ps. fst ij < p \<and> snd ij < p"
    and "\<forall>i<p. payoff_table M i i = diag_value val i"
  shows "\<exists>m r. fold_err (payoff_offdiag_body (status_free tc val)) ps M =
     Inr (M\<lparr>model := m, result := r,
            payoff_table := (\<lambda>i j. if i \<noteq> j \<and> (i, j) \<in> set ps then offdiag_value val i j
                                    else payoff_table M i j)\<rparr>)"
  using assms(2,3)
proof (induction ps arbitrary: M)
  case Nil
  show ?case by (rule exI[of _ "model M"], rule exI[of _ "result M"]) simp
next
  case (Cons ij ps)
  obtain i j where ij: "ij = (i, j)" by (cases ij)
  have rest: "\<forall>ij\<in>set ps. fst ij < p \<and> snd ij < p" using Cons.prems(1) by simp
  show ?case
  proof (cases "i = j")
    case False
    have i: "i < p" and j: "j < p" using Cons.prems(1) ij by simp_all
    have d: "payoff_table M i i = diag_value val i" using Cons.prems(2) i by blast
    let ?M1 = "M\<lparr>model := val (Pinned (j + 1) (i + 1) (diag_value val i)),
            result := tc (Pinned (j + 1) (i + 1) (diag_value val i)) (model M),
            payoff_table := (payoff_table M)(i := (payoff_table M i)
              (j := offdiag_value val i j))\<rparr>"
    have nn: "obj_expr (val (Pinned (j + 1) (i + 1) (payoff_table M i i))) (j + 1) \<noteq> None"
      using assms(1) j by blast
    from payoff_offdiag_body_status_free[where val=val and M=M and i=i and j=j and tc=tc,
        OF nn False]
    have b: "payoff_offdiag_body (status_free tc val) (i, j) M = Inr ?M1"
      by (simp add: d offdiag_value_def)
    have step1: "fold_err (payoff_offdiag_body (status_free tc val)) (ij # ps) M
        = fold_err (payoff_offdiag_body (status_free tc val)) ps ?M1"
      unfolding ij by (simp only: fold_err.simps b sum.case)
    have inv: "\<forall>k<p. payoff_table ?M1 k k = diag_value val k"
      using Cons.prems(2) False by simp
    from Cons.IH[OF rest inv] obtain m r where
      IH: "fold_err (payoff_offdiag_body (status_free tc val)) ps ?M1 =
         Inr (?M1\<lparr>model := m, result := r,
            payoff_table := (\<lambda>i j. if i \<noteq> j \<and> (i, j) \<in> set ps then offdiag_value val i j
                                    else payoff_table ?M1 i j)\<rparr>)"
      by blast
    show ?thesis
      apply (rule exI[of _ m], rule exI[of _ r])
      unfolding step1 IH using False ij
      by (intro arg_cong[where f=Inr] moop.equality) (auto simp: fun_eq_iff cong: if_cong)
  next
    case True
    have b: "payoff_offdiag_body (status_free tc val) ij M = Inr M"
      using True by (simp add: payoff_offdiag_body_def ij)
    have step1: "fold_err (payoff_offdiag_body (status_free tc val)) (ij # ps) M
        = fold_err (payoff_offdiag_body (status_free tc val)) ps M"
      by (simp only: fold_err.simps b sum.case)
    from Cons.IH[OF rest Cons.prems(2)] obtain m r where
      IH: "fold_err (payoff_offdiag_body (status_free tc val)) ps M =
         Inr (M\<lparr>model := m, result := r,
            payoff_table := (\<lambda>i j. if i \<noteq> j \<and> (i, j) \<in> set ps then offdiag_value val i j
                                    else payoff_table M i j)\<rparr>)"
      by blast
    show ?thesis
      apply (rule exI[of _ m], rule exI[of _ r])
      unfolding step1 IH using True ij
      by (intro arg_cong[where f=Inr] moop.equality) (auto simp: fun_eq_iff cong: if_cong)
  qed
qed

text \<open>
  For a solver that loads values after every solve (\<open>val q\<close> for the problem \<open>q\<close>, with a
  value for each of the \<open>p\<close> objectives) and reports any termination conditions whatever
  (\<open>tc\<close>), the table has a closed form.
\<close>

lemma payoff_table_closed_form:
  assumes "\<forall>q. \<forall>k<num_objfun M. obj_expr (val q) (k + 1) \<noteq> None"
  shows "\<exists>M'. create_payoff_table (status_free tc val) M = Inr M' \<and>
     (\<forall>i<num_objfun M. \<forall>j<num_objfun M.
         payoff_table M' i j = (if i = j then diag_value val i else offdiag_value val i j)) \<and>
     (\<forall>i<num_objfun M. ideal_point M' i = diag_value val i)"
proof -
  let ?p = "num_objfun M"
  let ?M0 = "M\<lparr>payoff_table := (\<lambda>i j. 0), ideal_point := (\<lambda>i. 0)\<rparr>"
  have ps: "\<forall>ij\<in>set (objfun_pairs M). fst ij < ?p \<and> snd ij < ?p"
    by (auto simp: objfun_pairs_def)
  then have ps1: "\<forall>ij\<in>set (objfun_pairs M). fst ij < ?p" by blast
  have mem: "\<And>i j. (i, j) \<in> set (objfun_pairs M) \<longleftrightarrow> i < ?p \<and> j < ?p"
    by (auto simp: objfun_pairs_def)
  from fold_err_payoff_diag[OF assms ps1, of tc ?M0] obtain m r where
    D: "fold_err (payoff_diag_body (status_free tc val)) (objfun_pairs M) ?M0 =
     Inr (?M0\<lparr>model := m, result := r,
            payoff_table := (\<lambda>i j. if i = j \<and> (i, i) \<in> set (objfun_pairs M)
                                    then diag_value val i else payoff_table ?M0 i j),
            ideal_point := (\<lambda>i. if (i, i) \<in> set (objfun_pairs M) then diag_value val i
                                 else ideal_point ?M0 i)\<rparr>)"
    by blast
  define M1 where "M1 = ?M0\<lparr>model := m, result := r,
            payoff_table := (\<lambda>i j. if i = j \<and> (i, i) \<in> set (objfun_pairs M)
                                    then diag_value val i else payoff_table ?M0 i j),
            ideal_point := (\<lambda>i. if (i, i) \<in> set (objfun_pairs M) then diag_value val i
                                 else ideal_point ?M0 i)\<rparr>"
  have inv: "\<forall>i<?p. payoff_table M1 i i = diag_value val i"
    by (simp add: M1_def mem)
  have ideal: "\<forall>i<?p. ideal_point M1 i = diag_value val i"
    by (simp add: M1_def mem)
  from fold_err_payoff_offdiag[OF assms ps inv, of tc] obtain m' r' where
    O: "fold_err (payoff_offdiag_body (status_free tc val)) (objfun_pairs M) M1 =
     Inr (M1\<lparr>model := m', result := r',
            payoff_table := (\<lambda>i j. if i \<noteq> j \<and> (i, j) \<in> set (objfun_pairs M)
                                    then offdiag_value val i j else payoff_table M1 i j)\<rparr>)"
    by blast
  have "create_payoff_table (status_free tc val) M =
     Inr (M1\<lparr>model := m', result := r',
            payoff_table := (\<lambda>i j. if i \<noteq> j \<and> (i, j) \<in> set (objfun_pairs M)
                                    then offdiag_value val i j else payoff_table M1 i j)\<rparr>)"
    unfolding create_payoff_table_def D M1_def[symmetric] by (simp add: O)
  then show ?thesis using inv ideal by (simp add: mem)
qed

subsection \<open>Every solver\<close>







section \<open>The grid loop without pruning\<close>

lemma map_err_Inr:
  assumes "\<And>x. x \<in> set xs \<Longrightarrow> f x = Inr (h x)"
  shows "map_err f xs = Inr (map h xs)"
  using assms by (induction xs) simp_all

lemma eps_params_valid:
  assumes "valid_index M c"
  shows "eps_params M c = Inr (eps_of M c)"
  unfolding eps_params_def eps_of_def
proof (rule map_err_Inr)
  fix k assume "k \<in> set [1..<num_objfun M]"
  then have k: "k - 1 < length c" using assms by (auto simp: valid_index_def)
  then have "c ! (k - 1) < g_points M" using assms by (auto simp: valid_index_def list_all_length)
  then show "(case tuple_get c (k - 1) of Inl er \<Rightarrow> Inl er
          | Inr j \<Rightarrow> if j < g_points M then Inr (e M (k - 1) j) else Inl IndexError) =
         Inr (e M (k - 1) (c ! (k - 1)))"
    using k by (simp add: tuple_get_def)
qed

text \<open>
  The recorded candidate depends on the state through the number of objectives and the
  ranges only; the epsilon parameters through the number of objectives and the grid.
\<close>

lemma temp_list_frame:
  assumes "num_objfun A = num_objfun B" and "obj_range A = obj_range B"
  shows "temp_list A v = temp_list B v"
  by (simp add: temp_list_def corrected_primary_def augmented_value_def augmented_expr_def
      penalty_term_def assms cong: if_cong)

lemma eps_of_frame:
  assumes "num_objfun A = num_objfun B" and "e A = e B"
  shows "eps_of A c = eps_of B c"
  by (simp add: eps_of_def assms)

lemma solve_trace_frame:
  assumes "num_objfun A = num_objfun B" and "e A = e B"
  shows "solve_trace S A cs v = solve_trace S B cs v"
  by (induction cs arbitrary: v) (simp_all add: eps_of_frame[OF assms])

lemma has_values_frame:
  assumes "num_objfun A = num_objfun B"
  shows "has_values A v = has_values B v"
  by (simp add: has_values_def assms)






lemma length_solve_trace [simp]: "length (solve_trace S M cs v) = length cs"
  by (induction cs arbitrary: v) simp_all




section \<open>Slack-driven skipping with three objectives\<close>

lemma fold_err_marks:
  "fold_err (\<lambda>i M'. Inr (M'\<lparr>flag := (flag M')([c0, i] \<mapsto> v)\<rparr>)) ks M =
   Inr (M\<lparr>flag := (\<lambda>k. if k \<in> set (map (\<lambda>i. [c0, i]) ks) then Some v else flag M k)\<rparr>)"
proof (induction ks arbitrary: M)
  case Nil
  then show ?case by simp
next
  case (Cons i ks)
  show ?case
    unfolding fold_err.simps sum.case Cons.IH
    by (intro arg_cong[where f=Inr] moop.equality) (auto simp: fun_eq_iff)
qed

lemma skip_run:
  assumes "int (length cs) \<le> bypass_jump M"
  shows "fold_err (grid_step S) cs M = Inr (M\<lparr>bypass_jump := bypass_jump M - int (length cs)\<rparr>)"
  using assms
proof (induction cs arbitrary: M)
  case Nil
  then show ?case by simp
next
  case (Cons c cs)
  have pos: "0 < bypass_jump M" using Cons.prems by simp
  have s: "grid_step S c M = Inr (M\<lparr>bypass_jump := bypass_jump M - 1\<rparr>)"
    using pos by (simp add: grid_step_def prefix_skip_def)
  have l: "int (length cs) \<le> bypass_jump (M\<lparr>bypass_jump := bypass_jump M - 1\<rparr>)"
    using Cons.prems by simp
  show ?case
    unfolding fold_err.simps s sum.case Cons.IH[OF l] by simp
qed

lemma eps_of_pair:
  assumes "num_objfun M = 3"
  shows "eps_of M [c0, c1] = [e M 0 c0, e M 1 c1]"
proof -
  have "[1..<num_objfun M] = [1, 2]"
    unfolding assms(1) by (simp add: numeral_3_eq_3 numeral_2_eq_2 upt_rec)
  then show ?thesis by (simp add: eps_of_def)
qed

lemma slack_steps_frame:
  "slack_steps (M\<lparr>model := v, result := r, models_solved := n\<rparr>) = slack_steps (M\<lparr>model := v\<rparr>)"
  by (simp add: slack_steps_def Let_def cong: option.case_cong if_cong)

lemma bypass_step:
  assumes p: "num_objfun M = 3" and bc: "bypass_coefficient M"
    and c: "c0 < g_points M" "c1 < g_points M"
    and idle: "bypass_jump M = 0" "flag_get (flag M) [c0, c1] = 0"
    and sol: "S (Augmented [e M 0 c0, e M 1 c1]) (model M) = (optimal, v)"
    and ss: "slack_steps (M\<lparr>model := v\<rparr>) = Inr [b0, b1]"
    and b0: "0 \<le> b0" and b1: "0 \<le> b1"
    and tl: "temp_list M v = Inr t"
  shows "\<exists>M1. grid_step S [c0, c1] M = Inr M1 \<and>
           models_solved M1 = models_solved M + 1 \<and>
           pareto_sols_temp M1 = pareto_sols_temp M @ [t] \<and>
           flag M1 [c0, c1] = Some (b0 + 1) \<and>
           bypass_jump M1 = min b0 (int (g_points M) - 1 - int c0)"
proof -
  let ?M2 = "M\<lparr>model := v, result := optimal, models_solved := models_solved M + 1\<rparr>"
  have ss2: "slack_steps ?M2 = Inr [b0, b1]" unfolding slack_steps_frame by (rule ss)
  have tb0: "tuple_get [b0, b1] 0 = Inr b0" and tb1: "tuple_get [b0, b1] 1 = Inr b1"
    by (simp_all add: tuple_get_def)
  have pre: "prefix_skip M [c0, c1] = Inr M"
    using idle by (simp add: prefix_skip_def)
  have v: "valid_index M [c0, c1]" using p c by (simp add: valid_index_def)
  have ep: "eps_params M [c0, c1] = Inr [e M 0 c0, e M 1 c1]"
    unfolding eps_params_valid[OF v] eps_of_pair[OF p] ..
  define ks where "ks = [c1..<nat (int c1 + b1 + 1)]"
  define F where "F = (\<lambda>k. if k \<in> set (map (\<lambda>i. [c0, i]) ks) then Some (b0 + 1) else flag M k)"
  have tc0: "tuple_get [c0, c1] 0 = Inr c0" and tc1: "tuple_get [c0, c1] 1 = Inr c1"
    by (simp_all add: tuple_get_def)
  have fm: "fold_err (\<lambda>i M'. Inr (M'\<lparr>flag := (flag M')([c0, i] \<mapsto> b0 + 1)\<rparr>)) ks ?M2
            = Inr (?M2\<lparr>flag := F\<rparr>)"
    unfolding fold_err_marks F_def
    by (intro arg_cong[where f=Inr] moop.equality) (simp_all cong: if_cong)
  have bm: "bypass_marks ?M2 [c0, c1] = Inr (?M2\<lparr>flag := F\<rparr>)"
    unfolding bypass_marks_def ss2 sum.case tc0 tc1 tb0 tb1 ks_def[symmetric] by (rule fm)
  have pm: "prune_marks ?M2 [c0, c1] = Inr (?M2\<lparr>flag := F\<rparr>)"
    using bc bm by (simp add: prune_marks_def)
  have "c1 < nat (int c1 + b1 + 1)" using b1 by linarith
  then have c1in: "c1 \<in> set ks"
    unfolding ks_def by (simp only: set_upt atLeastLessThan_iff le_refl simp_thms)
  then have "[c0, c1] \<in> set (map (\<lambda>i. [c0, i]) ks)"
    unfolding set_map by (rule imageI)
  then have Fc: "F [c0, c1] = Some (b0 + 1)" unfolding F_def by (simp only: if_True)
  have tl2: "temp_list (?M2\<lparr>flag := F\<rparr>) v = Inr t"
    using temp_list_frame[of "?M2\<lparr>flag := F\<rparr>" M v] tl by simp
  define M3 where "M3 = ?M2\<lparr>flag := F, pareto_sols_temp := pareto_sols_temp M @ [t]\<rparr>"
  have fg: "flag_get (flag M3) [c0, c1] = b0 + 1"
    using Fc by (simp add: flag_get_def M3_def)
  have m3: "bypass_jump M3 = 0" "g_points M3 = g_points M"
    "models_solved M3 = models_solved M + 1"
    "pareto_sols_temp M3 = pareto_sols_temp M @ [t]"
    using idle(1) by (simp_all add: M3_def)
  have m3f: "flag M3 = F" by (simp add: M3_def)
  have adv: "advance_skip M3 [c0, c1]
      = Inr (M3\<lparr>bypass_jump := min b0 (int (g_points M) - 1 - int c0)\<rparr>)"
    unfolding advance_skip_def fg tc0 sum.case m3(1,2)
    using b0 by (auto simp: Let_def min_def)
  have "solve_grid_point S M [c0, c1]
      = Inr (M3\<lparr>bypass_jump := min b0 (int (g_points M) - 1 - int c0)\<rparr>)"
    unfolding solve_grid_point_def ep sum.case solve_model_def sol prod.case Let_def
    using adv pm tl2 by (simp add: M3_def)
  then have "grid_step S [c0, c1] M
      = Inr (M3\<lparr>bypass_jump := min b0 (int (g_points M) - 1 - int c0)\<rparr>)"
    unfolding grid_step_def pre sum.case using idle(1) by simp
  then show ?thesis using Fc m3 m3f by simp
qed

lemma nth_cp_three:
  assumes "k < g * g"
  shows "cp g 3 ! k = [k mod g, k div g]"
proof -
  let ?F = "\<lambda>c1. map (\<lambda>c0. [c0, c1]) [0..<g]"
  have len: "\<And>x. length (?F x) = g" by simp
  have k: "k < length [0..<g] * g" using assms by simp
  have g: "0 < g" using assms by (cases g) auto
  have d: "k div g < g" using assms g by (simp add: less_mult_imp_div_less)
  have m: "k mod g < g" using g by simp
  have "cp g 3 ! k = ?F ([0..<g] ! (k div g)) ! (k mod g)"
    unfolding cp_three by (rule nth_concat_map_const[OF len k])
  then show ?thesis using d m by simp
qed

lemma next_indices:
  assumes "c0 + k < g" and "c1 < g"
  shows "take k (drop (Suc (c1 * g + c0)) (cp g 3)) = map (\<lambda>d. [c0 + d, c1]) [1..<Suc k]"
proof (rule nth_equalityI)
  have "Suc c1 * g \<le> g * g" using assms(2) by (simp add: mult_le_mono1 del: mult_Suc)
  then have bound: "Suc (c1 * g + c0) + k \<le> g * g" using assms(1) by simp
  have lcp: "length (cp g 3) = g * g" by (simp add: length_cp power2_eq_square)
  show "length (take k (drop (Suc (c1 * g + c0)) (cp g 3)))
        = length (map (\<lambda>d. [c0 + d, c1]) [1..<Suc k])"
    using bound lcp by simp
  fix j assume "j < length (take k (drop (Suc (c1 * g + c0)) (cp g 3)))"
  then have j: "j < k" by simp
  have lt: "Suc (c1 * g + c0) + j < g * g" using bound j by simp
  define x where "x = c0 + Suc j"
  have eq: "Suc (c1 * g + c0) + j = c1 * g + x" by (simp add: x_def)
  have small: "x < g" using assms(1) j by (simp add: x_def)
  have "take k (drop (Suc (c1 * g + c0)) (cp g 3)) ! j = cp g 3 ! (Suc (c1 * g + c0) + j)"
    using j lt lcp by simp
  also have "\<dots> = [(c1 * g + x) mod g, (c1 * g + x) div g]"
    unfolding eq[symmetric] using lt by (rule nth_cp_three)
  also have "\<dots> = [x, c1]" using small by simp
  also have "\<dots> = [c0 + Suc j, c1]" by (simp add: x_def)
  finally show "take k (drop (Suc (c1 * g + c0)) (cp g 3)) ! j
        = map (\<lambda>d. [c0 + d, c1]) [1..<Suc k] ! j"
    using j by (simp add: nth_map_upt del: upt_Suc)
qed

text \<open>
  With exactly three objectives the skip map passes over the next indices of the
  fastest-varying dimension, for the counts the code computes. Let \<open>bypass_coefficient\<close> be on, no skip be pending at the
  grid index \<open>c = (c0, c1)\<close>, the solve at \<open>c\<close> be optimal and leave values the record step
  can read, and \<open>b = [b0, b1]\<close> be the whole steps lines 199-204 compute from the slacks,
  both non-negative. Then \<open>c\<close> is solved and recorded, the skip map gets the entry
  \<open>b0 + 1\<close> at \<open>c\<close>, and the next \<open>min b0 (g - 1 - c0)\<close> indices of the enumeration, which
  are \<open>(c0 + 1, c1), (c0 + 2, c1), ...\<close>, are passed over without a solve and without a
  record, after which no skip is pending.
\<close>

lemma three_objectives_skip:
  assumes "num_objfun M = 3" and "bypass_coefficient M"
    and "c0 < g_points M" and "c1 < g_points M"
    and "bypass_jump M = 0" and "flag_get (flag M) [c0, c1] = 0"
    and "S (Augmented [e M 0 c0, e M 1 c1]) (model M) = (optimal, v)"
    and "slack_steps (M\<lparr>model := v\<rparr>) = Inr [b0, b1]" and "0 \<le> b0" and "0 \<le> b1"
    and "temp_list M v = Inr t"
  shows "cp (g_points M) 3 ! (c1 * g_points M + c0) = [c0, c1] \<and>
     take (nat (min b0 (int (g_points M) - 1 - int c0)))
          (drop (Suc (c1 * g_points M + c0)) (cp (g_points M) 3))
       = map (\<lambda>d. [c0 + d, c1]) [1..<Suc (nat (min b0 (int (g_points M) - 1 - int c0)))] \<and>
     (\<exists>M1 M2.
        grid_step S [c0, c1] M = Inr M1 \<and> models_solved M1 = models_solved M + 1 \<and>
        flag M1 [c0, c1] = Some (b0 + 1) \<and>
        fold_err (grid_step S)
          (take (nat (min b0 (int (g_points M) - 1 - int c0)))
                (drop (Suc (c1 * g_points M + c0)) (cp (g_points M) 3))) M1 = Inr M2 \<and>
        models_solved M2 = models_solved M1 \<and>
        pareto_sols_temp M2 = pareto_sols_temp M1 \<and>
        bypass_jump M2 = 0)"
proof -
  let ?g = "g_points M"
  let ?sk = "min b0 (int ?g - 1 - int c0)"
  let ?k = "nat ?sk"
  let ?next = "take ?k (drop (Suc (c1 * ?g + c0)) (cp ?g 3))"
  from bypass_step[where M=M and S=S and v=v and ?c0.0=c0 and ?c1.0=c1 and ?b0.0=b0
      and ?b1.0=b1 and t=t, OF assms]
  obtain M1 where
    st: "grid_step S [c0, c1] M = Inr M1" and ms: "models_solved M1 = models_solved M + 1"
    and fl: "flag M1 [c0, c1] = Some (b0 + 1)"
    and bj: "bypass_jump M1 = ?sk"
    by blast
  have nn: "0 \<le> ?sk" using assms(9,3) by simp
  have "?sk \<le> int ?g - 1 - int c0" by simp
  then have room: "c0 + ?k < ?g" using nn assms(3) by linarith
  have "Suc c1 * ?g \<le> ?g * ?g" using assms(4) by (simp add: mult_le_mono1 del: mult_Suc)
  then have pos: "c1 * ?g + c0 < ?g * ?g" using assms(3) by simp
  have here: "cp ?g 3 ! (c1 * ?g + c0) = [c0, c1]"
    using assms(3) by (simp add: nth_cp_three[OF pos])
  have nx: "?next = map (\<lambda>d. [c0 + d, c1]) [1..<Suc ?k]"
    using room assms(4) by (rule next_indices)
  have "length ?next = ?k"
    unfolding nx by (simp del: upt_Suc)
  then have leq: "int (length ?next) = bypass_jump M1"
    unfolding bj using nn by simp
  then have len: "int (length ?next) \<le> bypass_jump M1" by simp
  let ?M2 = "M1\<lparr>bypass_jump := bypass_jump M1 - int (length ?next)\<rparr>"
  have run: "fold_err (grid_step S) ?next M1 = Inr ?M2"
    using len by (rule skip_run)
  have "models_solved ?M2 = models_solved M1" "pareto_sols_temp ?M2 = pareto_sols_temp M1"
    "bypass_jump ?M2 = 0"
    using leq by simp_all
  then show ?thesis using here nx st ms fl run by blast
qed

section \<open>Slack-driven skipping with two objectives\<close>

lemma run_2_3_bypass:
  "case MOOP_init (one_point_solver point_10_5_7) (moop_new 2 3 (Some [3]) False True) of
     Inl er \<Rightarrow> er = IndexError
   | Inr M \<Rightarrow> False"
  by code_simp

lemma nadir_3_first_solve:
  "\<not> isl (create_payoff_table (one_point_solver point_10_5_7)
            (moop_new 2 3 (Some [3]) False True)) \<and>
   \<not> isl (find_objfun_range nadir_3_table) \<and>
   obj_range nadir_3_grid 0 = 2 \<and> g_points nadir_3_grid = 3 \<and>
   e nadir_3_grid 0 0 = 3 \<and> e nadir_3_grid 0 1 = 4 \<and> e nadir_3_grid 0 2 = 5 \<and>
   cp (g_points nadir_3_grid) (num_objfun nadir_3_grid) = [[0], [1], [2]] \<and>
   result nadir_3_solved = optimal \<and>
   Slack (model nadir_3_solved) 2 = Some 2 \<and>
   slack_steps nadir_3_solved = Inr [2]"
  by code_simp

text \<open>
  Claim C3 with two objectives (values \<open>(10, 5)\<close>, nadir point 3, three grid points). The
  range of objective 2 is 2, the grid row is \<open>(3, 4, 5)\<close> and one step is 1. The solve at
  the first grid index \<open>(0)\<close> is optimal with slack 2, two whole steps (\<open>b = [2]\<close>): the
  claim has the next two indices \<open>(1)\<close> and \<open>(2)\<close> passed over without a solve. Line 206
  reads \<open>c[1]\<close> of the grid index of length 1, and the run ends with \<open>IndexError\<close>; no
  entry is made in the skip map.
\<close>

theorem two_objectives_slack_skip_raises:
  "\<not> isl (create_payoff_table (one_point_solver point_10_5_7)
            (moop_new 2 3 (Some [3]) False True)) \<and>
   \<not> isl (find_objfun_range nadir_3_table) \<and>
   obj_range nadir_3_grid 0 = 2 \<and> g_points nadir_3_grid = 3 \<and>
   e nadir_3_grid 0 0 = 3 \<and> e nadir_3_grid 0 1 = 4 \<and> e nadir_3_grid 0 2 = 5 \<and>
   cp (g_points nadir_3_grid) (num_objfun nadir_3_grid) = [[0], [1], [2]] \<and>
   result nadir_3_solved = optimal \<and>
   Slack (model nadir_3_solved) 2 = Some 2 \<and>
   slack_steps nadir_3_solved = Inr [2] \<and>
   MOOP_init (one_point_solver point_10_5_7) (moop_new 2 3 (Some [3]) False True)
     = Inl IndexError"
proof -
  have "MOOP_init (one_point_solver point_10_5_7) (moop_new 2 3 (Some [3]) False True)
          = Inl IndexError"
    using run_2_3_bypass
    by (cases "MOOP_init (one_point_solver point_10_5_7) (moop_new 2 3 (Some [3]) False True)")
       simp_all
  then show ?thesis using nadir_3_first_solve by blast
qed
section \<open>The record step\<close>

text \<open>
  With two objectives, in exact arithmetic, the record step subtracts exactly the
  penalty that \<open>convert_opt_prob\<close> added (the only weight is \<open>10 ** 0\<close>), and the first
  component is the rounded primary objective.
\<close>

lemma corrected_primary_two_objectives:
  assumes "num_objfun M = 2" and "obj_range M 0 \<noteq> 0"
    and "obj_expr v 1 = Some x" and "Slack v 2 = Some s"
  shows "corrected_primary M v = Inr (py_round x 2)"
proof -
  have u: "[0..<2] = [0, 1]" "[2..<2 + 1] = [2]" "[1..<2] = [1]"
    by (simp_all add: numeral_2_eq_2 upt_rec)
  have s2: "Slack v (Suc (Suc 0)) = Some s" using assms(4) by (simp add: numeral_2_eq_2)
  show ?thesis
    unfolding corrected_primary_def augmented_value_def augmented_expr_def assms(1) u
    using assms(2,3) s2 by (simp add: penalty_term_def numeral_2_eq_2)
qed

text \<open>
  With three or more objectives, a grid point whose solve is not optimal is recorded
  from the values the model holds after the solve, where the record step can read them
  and the slack-driven branch is not taken (\<open>early_exit\<close> is on, or \<open>bypass_coefficient\<close>
  is off).
\<close>

lemma fold_err_flag_only:
  "\<exists>F. fold_err (\<lambda>i M'. Inr (M'\<lparr>flag := h i M'\<rparr>)) ks M = Inr (M\<lparr>flag := F\<rparr>)"
proof (induction ks arbitrary: M)
  case Nil
  have "M = M\<lparr>flag := flag M\<rparr>" by simp
  then show ?case by (metis fold_err.simps(1))
next
  case (Cons i ks)
  from Cons.IH[of "M\<lparr>flag := h i M\<rparr>"] obtain F where
    "fold_err (\<lambda>i M'. Inr (M'\<lparr>flag := h i M'\<rparr>)) ks (M\<lparr>flag := h i M\<rparr>)
       = Inr (M\<lparr>flag := h i M\<rparr>\<lparr>flag := F\<rparr>)" by blast
  then have "fold_err (\<lambda>i M'. Inr (M'\<lparr>flag := h i M'\<rparr>)) (i # ks) M = Inr (M\<lparr>flag := F\<rparr>)"
    by simp
  then show ?case by blast
qed

lemma early_exit_marks_ok:
  assumes "2 \<le> length c"
  shows "\<exists>F. early_exit_marks M c = Inr (M\<lparr>flag := F\<rparr>)"
proof -
  have t: "tuple_get c 1 = Inr (c ! 1)" "tuple_get c 0 = Inr (c ! 0)"
    using assms by (auto simp: tuple_get_def)
  show ?thesis
    unfolding early_exit_marks_def t sum.case
    by (rule fold_err_flag_only)
qed

lemma advance_skip_keeps:
  assumes "1 \<le> length c"
  shows "\<exists>M'. advance_skip M c = Inr M' \<and> pareto_sols_temp M' = pareto_sols_temp M \<and>
           models_solved M' = models_solved M"
  using assms by (auto simp: advance_skip_def tuple_get_def Let_def)

lemma nonoptimal_point_is_recorded:
  assumes "valid_index M c" and "3 \<le> num_objfun M"
    and "early_exit M \<or> \<not> bypass_coefficient M"
    and "S (Augmented (eps_of M c)) (model M) = (tc, v)" and "tc \<noteq> optimal"
    and "temp_list M v = Inr t"
  shows "\<exists>M'. solve_grid_point S M c = Inr M' \<and>
           pareto_sols_temp M' = pareto_sols_temp M @ [t] \<and>
           models_solved M' = models_solved M + 1"
proof -
  have len: "2 \<le> length c" "1 \<le> length c" using assms(1,2) by (simp_all add: valid_index_def)
  let ?M2 = "M\<lparr>model := v, result := tc, models_solved := models_solved M + 1\<rparr>"
  have "\<exists>F. prune_marks ?M2 c = Inr (?M2\<lparr>flag := F\<rparr>)"
  proof (cases "early_exit M")
    case True
    from early_exit_marks_ok[OF len(1), of ?M2] obtain F where
      "early_exit_marks ?M2 c = Inr (?M2\<lparr>flag := F\<rparr>)" by blast
    then have "prune_marks ?M2 c = Inr (?M2\<lparr>flag := F\<rparr>)"
      using True assms(5) by (simp add: prune_marks_def)
    then show ?thesis by blast
  next
    case False
    then have "prune_marks ?M2 c = Inr (?M2\<lparr>flag := flag M\<rparr>)"
      using assms(3) by (simp add: prune_marks_def)
    then show ?thesis by blast
  qed
  then obtain F where pm: "prune_marks ?M2 c = Inr (?M2\<lparr>flag := F\<rparr>)" by blast
  have tl: "temp_list (?M2\<lparr>flag := F\<rparr>) v = Inr t"
    using temp_list_frame[of "?M2\<lparr>flag := F\<rparr>" M v] assms(6) by simp
  let ?M3 = "?M2\<lparr>flag := F, pareto_sols_temp := pareto_sols_temp M @ [t]\<rparr>"
  from advance_skip_keeps[OF len(2), of ?M3] obtain M' where
    "advance_skip ?M3 c = Inr M'" "pareto_sols_temp M' = pareto_sols_temp M @ [t]"
    "models_solved M' = models_solved M + 1" by auto
  moreover have "solve_grid_point S M c = advance_skip ?M3 c"
    unfolding solve_grid_point_def eps_params_valid[OF assms(1)] sum.case solve_model_def
      assms(4) prod.case Let_def
    using pm tl by simp
  ultimately show ?thesis by simp
qed

section \<open>Pruning never adds solves\<close>

text \<open>
  Whatever the flags, an iteration of the grid loop makes at most one solve, so a run
  that completes has made at most \<open>g_points ^ (p - 1)\<close> of them, the count of the run
  without pruning.
\<close>

lemma fold_err_invariant:
  assumes "\<And>x s s'. f x s = Inr s' \<Longrightarrow> P s \<Longrightarrow> P s'"
    and "fold_err f xs s = Inr s'" and "P s"
  shows "P s'"
  using assms(2,3)
proof (induction xs arbitrary: s)
  case Nil
  then show ?case by simp
next
  case (Cons x xs)
  then show ?case
    by (cases "f x s") (auto intro: assms(1))
qed

lemma early_exit_marks_solved:
  assumes "early_exit_marks M c = Inr M'"
  shows "models_solved M' = models_solved M \<and> bypass_jump M' = bypass_jump M"
proof (cases "tuple_get c 1")
  case (Inl er)
  then show ?thesis using assms by (simp add: early_exit_marks_def)
next
  case (Inr c1)
  let ?P = "\<lambda>X. models_solved X = models_solved M \<and> bypass_jump X = bypass_jump M"
  have "?P M'"
  proof (rule fold_err_invariant[where P = ?P])
    show "fold_err
            (\<lambda>i M'. case tuple_get c 0 of
                       Inl er \<Rightarrow> Inl er
                     | Inr c0 \<Rightarrow>
                         Inr (M'\<lparr>flag := (flag M')([c0, i] \<mapsto> int (g_points M') - int c0)\<rparr>))
            [c1..<g_points M] M = Inr M'"
      using assms Inr by (simp add: early_exit_marks_def)
  qed (auto split: sum.splits)
  then show ?thesis .
qed

lemma bypass_marks_solved:
  assumes "bypass_marks M c = Inr M'"
  shows "models_solved M' = models_solved M \<and> bypass_jump M' = bypass_jump M"
proof -
  let ?P = "\<lambda>X. models_solved X = models_solved M \<and> bypass_jump X = bypass_jump M"
  from assms obtain b c1 b1 where
    f: "fold_err
          (\<lambda>i M'. case tuple_get c 0 of
                     Inl er \<Rightarrow> Inl er
                   | Inr c0 \<Rightarrow>
                       (case tuple_get b 0 of
                          Inl er \<Rightarrow> Inl er
                        | Inr b0 \<Rightarrow> Inr (M'\<lparr>flag := (flag M')([c0, i] \<mapsto> b0 + 1)\<rparr>)))
          [c1..<nat (int c1 + b1 + 1)] M = Inr M'"
    by (auto simp: bypass_marks_def split: sum.splits)
  have "?P M'"
    by (rule fold_err_invariant[where P = ?P, OF _ f]) (auto split: sum.splits)
  then show ?thesis .
qed

lemma grid_step_solves_le:
  assumes "grid_step S c M = Inr M'"
  shows "models_solved M' \<le> models_solved M + 1"
proof -
  have pm: "\<And>X Y. prune_marks X c = Inr Y \<Longrightarrow> models_solved Y = models_solved X"
    by (auto simp: prune_marks_def early_exit_marks_solved bypass_marks_solved split: if_splits)
  show ?thesis
    using assms
    by (auto simp: grid_step_def prefix_skip_def solve_grid_point_def solve_model_def
        advance_skip_def Let_def dest!: pm split: sum.splits if_splits prod.splits)
qed

lemma fold_err_solves_le:
  assumes "fold_err (grid_step S) cs M = Inr M'"
  shows "models_solved M' \<le> models_solved M + length cs"
  using assms
proof (induction cs arbitrary: M)
  case Nil
  then show ?case by simp
next
  case (Cons c cs)
  then obtain M1 where s: "grid_step S c M = Inr M1" and r: "fold_err (grid_step S) cs M1 = Inr M'"
    by (auto split: sum.splits)
  from grid_step_solves_le[OF s] Cons.IH[OF r] show ?case by simp
qed

lemma pruned_solve_count_le:
  assumes "discover_pareto S M = Inr M'"
  shows "models_solved M' \<le> g_points M ^ (num_objfun M - 1)"
  using fold_err_solves_le[OF assms[unfolded discover_pareto_def]] by (simp add: length_cp)

section \<open>Runs of the whole constructor on the one-point model\<close>

lemma run_3_2_unpruned:
  "case MOOP_init (one_point_solver point_10_5_7) (moop_new 3 2 (Some [4, 6]) False False) of
     Inl er \<Rightarrow> False
   | Inr M \<Rightarrow>
       pareto_sols_temp M = [[999 / 100, 5, 7], [999 / 100, 5, 7], [10, 5, 7], [10, 5, 7]]
       \<and> models_solved M = 4
       \<and> unique_pareto_sols M = {[999 / 100, 5, 7], [10, 5, 7]}"
  by code_simp

lemma run_3_2_bypass:
  "case MOOP_init (one_point_solver point_10_5_7) (moop_new 3 2 (Some [4, 6]) False True) of
     Inl er \<Rightarrow> False
   | Inr M \<Rightarrow> models_solved M = 1 \<and> unique_pareto_sols M = {[999 / 100, 5, 7]}"
  by code_simp

text \<open>
  The model has one feasible point with objective values \<open>(10, 5, 7)\<close>; the nadir points
  \<open>(4, 6)\<close> give both secondary objectives the range 1, and with two grid points the grid
  rows are \<open>(4, 5)\<close> and \<open>(6, 7)\<close>.

  Claim C2 at this input, both pruning flags off. At the first grid point the slacks are
  \<open>(1, 1)\<close>: \<open>convert_opt_prob\<close> added \<open>0.01 * (1 + 0.1 * 1)\<close> to the objective, the record
  step subtracts \<open>0.01 * (1 + 1)\<close>, and the recorded first component is 9.99 where the
  primary objective is 10. The weight \<open>10 ** (-(o - 1))\<close> of the augmentation is missing
  from the subtraction.
\<close>

theorem recorded_primary_is_not_the_objective:
  "\<exists>M. MOOP_init (one_point_solver point_10_5_7) (moop_new 3 2 (Some [4, 6]) False False) = Inr M
      \<and> pareto_sols_temp M = [[999 / 100, 5, 7], [999 / 100, 5, 7], [10, 5, 7], [10, 5, 7]]
      \<and> py_round (point_10_5_7 1) 2 = 10"
proof -
  have "py_round (point_10_5_7 1) 2 = 10" by code_simp
  then show ?thesis
    using run_3_2_unpruned
    by (cases "MOOP_init (one_point_solver point_10_5_7) (moop_new 3 2 (Some [4, 6]) False False)")
       simp_all
qed

text \<open>
  Claim C1 at the same input. With \<open>bypass_coefficient\<close> on, the first solve marks the
  three other grid points as skipped, one solve is made and the Pareto set has one
  element; without pruning the four solves record two distinct candidates, which differ
  in the first component only.
\<close>

theorem bypass_changes_the_pareto_set:
  "\<exists>Mp Mu.
      MOOP_init (one_point_solver point_10_5_7) (moop_new 3 2 (Some [4, 6]) False True) = Inr Mp
    \<and> MOOP_init (one_point_solver point_10_5_7) (moop_new 3 2 (Some [4, 6]) False False) = Inr Mu
    \<and> models_solved Mp = 1 \<and> models_solved Mu = 4
    \<and> unique_pareto_sols Mp = {[999 / 100, 5, 7]}
    \<and> unique_pareto_sols Mu = {[999 / 100, 5, 7], [10, 5, 7]}
    \<and> unique_pareto_sols Mp \<noteq> unique_pareto_sols Mu"
proof -
  have "{[999 / 100, 5, 7]} \<noteq> {[999 / 100, 5, 7], [10 :: rat, 5, 7]}" by auto
  then show ?thesis
    using run_3_2_unpruned run_3_2_bypass
    by (cases "MOOP_init (one_point_solver point_10_5_7) (moop_new 3 2 (Some [4, 6]) False False)";
        cases "MOOP_init (one_point_solver point_10_5_7) (moop_new 3 2 (Some [4, 6]) False True)")
       simp_all
qed

lemma run_2_2_bypass:
  "case MOOP_init (one_point_solver point_10_5_7) (moop_new 2 2 (Some [4]) False True) of
     Inl er \<Rightarrow> er = IndexError
   | Inr M \<Rightarrow> False"
  by code_simp

lemma run_2_2_unpruned:
  "case MOOP_init (one_point_solver point_10_5_7) (moop_new 2 2 (Some [4]) False False) of
     Inl er \<Rightarrow> False
   | Inr M \<Rightarrow> models_solved M = 2"
  by code_simp

text \<open>
  Claim C9 with two objectives (values \<open>(10, 5)\<close>, nadir point 4, two grid points). A grid
  index is then a tuple of length 1. With \<open>bypass_coefficient\<close> on, the first grid point
  is solved and line 206 reads \<open>c[1]\<close>: the run ends with \<open>IndexError\<close>. With both flags
  off the same run completes after two solves.
\<close>

theorem two_objectives_bypass_raises:
  "MOOP_init (one_point_solver point_10_5_7) (moop_new 2 2 (Some [4]) False True) = Inl IndexError
   \<and> (\<exists>M. MOOP_init (one_point_solver point_10_5_7) (moop_new 2 2 (Some [4]) False False) = Inr M
          \<and> models_solved M = 2)"
  using run_2_2_bypass run_2_2_unpruned
  by (cases "MOOP_init (one_point_solver point_10_5_7) (moop_new 2 2 (Some [4]) False False)";
      cases "MOOP_init (one_point_solver point_10_5_7) (moop_new 2 2 (Some [4]) False True)")
     simp_all

lemma run_2_2_high_nadir_early_exit:
  "case MOOP_init (one_point_solver point_10_5_7) (moop_new 2 2 (Some [6]) True False) of
     Inl er \<Rightarrow> er = IndexError
   | Inr M \<Rightarrow> False"
  by code_simp

lemma run_2_2_interrupted_early_exit:
  "case MOOP_init interrupted_solver (moop_new 2 2 (Some [4]) True False) of
     Inl er \<Rightarrow> er = IndexError
   | Inr M \<Rightarrow> False"
  by code_simp

lemma run_2_2_interrupted_unpruned:
  "case MOOP_init interrupted_solver (moop_new 2 2 (Some [4]) False False) of
     Inl er \<Rightarrow> False
   | Inr M \<Rightarrow> pareto_sols_temp M = [[10, 5], [10, 5]] \<and> models_solved M = 2"
  by code_simp

text \<open>
  Claim C10 with two objectives (values \<open>(10, 5)\<close>, nadir point 4, two grid points, grid
  row \<open>(4, 5)\<close>) and a solver that ends the second grid solve without an optimum, leaving
  the values of the first solve in the model. With \<open>early_exit\<close> off the second grid point
  is recorded from those values, as \<open>(10, 5)\<close>. With \<open>early_exit\<close> on, line 195 reads
  \<open>c[1]\<close> of a grid index of length 1 and the run ends with \<open>IndexError\<close> before the record
  step. The same happens where the non-optimal solve is an infeasible one: with the
  exact solver and the nadir point 6 the first grid solve is infeasible, and the run with
  \<open>early_exit\<close> on ends with \<open>IndexError\<close>.
\<close>

theorem two_objectives_early_exit_raises:
  "fst (interrupted_solver (Augmented [5]) no_values) = other
   \<and> (\<exists>M. MOOP_init interrupted_solver (moop_new 2 2 (Some [4]) False False) = Inr M
          \<and> pareto_sols_temp M = [[10, 5], [10, 5]] \<and> models_solved M = 2)
   \<and> MOOP_init interrupted_solver (moop_new 2 2 (Some [4]) True False) = Inl IndexError
   \<and> fst (one_point_solver point_10_5_7 (Augmented [6]) no_values) = infeasible
   \<and> MOOP_init (one_point_solver point_10_5_7) (moop_new 2 2 (Some [6]) True False)
       = Inl IndexError"
proof -
  have "fst (interrupted_solver (Augmented [5]) no_values) = other"
    "fst (one_point_solver point_10_5_7 (Augmented [6]) no_values) = infeasible"
    by (simp_all add: interrupted_solver_def one_point_solver_def point_10_5_7_def)
  then show ?thesis
    using run_2_2_high_nadir_early_exit run_2_2_interrupted_early_exit
      run_2_2_interrupted_unpruned
    by (cases "MOOP_init (one_point_solver point_10_5_7) (moop_new 2 2 (Some [6]) True False)";
        cases "MOOP_init interrupted_solver (moop_new 2 2 (Some [4]) True False)";
        cases "MOOP_init interrupted_solver (moop_new 2 2 (Some [4]) False False)")
       simp_all
qed
end
